theory Spec2Isabelle
  imports
    Main
    "HOL-Library.Word"
    "HOL-Library.Char_ord"
    "HOL-Library.List_Lexorder"
begin

section \<open>Values shared by the two modules\<close>

type_synonym bytes = "8 word list"

text \<open>
  The exceptions that the modelled library calls can raise. \<open>RequestException\<close> derives
  from \<open>IOError\<close>, which is \<open>OSError\<close>; \<open>BadZipFile\<close>, \<open>ValueError\<close>, \<open>TypeError\<close> and
  \<open>RuntimeError\<close> do not.
\<close>

datatype error =
    FileNotFoundError
  | FileExistsError
  | NotADirectoryError
  | IsADirectoryError
  | PermissionError
  | OtherOSError string
  | RequestException string
  | BadZipFile
  | ValueError string
  | TypeError string
  | RuntimeError string

fun is_OSError :: "error \<Rightarrow> bool" where
  "is_OSError FileNotFoundError = True"
| "is_OSError FileExistsError = True"
| "is_OSError NotADirectoryError = True"
| "is_OSError IsADirectoryError = True"
| "is_OSError PermissionError = True"
| "is_OSError (OtherOSError _) = True"
| "is_OSError (RequestException _) = True"
| "is_OSError _ = False"


section \<open>pathlib: pure POSIX paths\<close>

text \<open>
  \<open>str.split(sep)\<close> for a one-character separator: the result is never empty, and
  consecutive separators give empty pieces.
\<close>

fun split_sep :: "char \<Rightarrow> string \<Rightarrow> string list" where
  "split_sep c [] = [[]]"
| "split_sep c (x # xs) =
     (if x = c then [] # split_sep c xs
      else (case split_sep c xs of [] \<Rightarrow> [[x]] | y # ys \<Rightarrow> (x # y) # ys))"

fun join_sep :: "string \<Rightarrow> string list \<Rightarrow> string" where
  "join_sep s [] = []"
| "join_sep s [x] = x"
| "join_sep s (x # y # ys) = x @ s @ join_sep s (y # ys)"

text \<open>
  A \<open>PurePosixPath\<close> is a root (\<open>''''\<close> for a relative path, \<open>''/''\<close>, or \<open>''//''\<close> for
  exactly two leading slashes) and the list of its name components; empty components and
  \<open>.\<close> are dropped when a string is parsed, \<open>..\<close> is kept.
\<close>

datatype pure_path = PurePath (p_root: string) (p_tail: "string list")

definition splitroot :: "string \<Rightarrow> string \<times> string" where
  "splitroot s =
     (if take 1 s \<noteq> ''/'' then ('''', s)
      else if take 1 (drop 1 s) \<noteq> ''/'' \<or> take 1 (drop 2 s) = ''/'' then (''/'', drop 1 s)
      else (''//'', drop 2 s))"

definition Path :: "string \<Rightarrow> pure_path" where
  "Path s =
     (case splitroot s of (r, rel) \<Rightarrow>
        PurePath r (filter (\<lambda>x. x \<noteq> '''' \<and> x \<noteq> ''.'') (split_sep CHR ''/'' rel)))"

text \<open>The operator \<open>/\<close> of pathlib: an absolute right operand replaces the left one.\<close>

definition joinpath :: "pure_path \<Rightarrow> string \<Rightarrow> pure_path" where
  "joinpath p s =
     (let q = Path s in
      if p_root q \<noteq> '''' then q else PurePath (p_root p) (p_tail p @ p_tail q))"

definition name :: "pure_path \<Rightarrow> string" where
  "name p = (if p_tail p = [] then '''' else last (p_tail p))"

definition parent :: "pure_path \<Rightarrow> pure_path" where
  "parent p = (if p_tail p = [] then p else PurePath (p_root p) (butlast (p_tail p)))"

definition str_path :: "pure_path \<Rightarrow> string" where
  "str_path p =
     (if p_tail p = [] then (if p_root p = '''' then ''.'' else p_root p)
      else p_root p @ join_sep ''/'' (p_tail p))"


section \<open>The file system and the library calls of \<open>data_setup.download_data\<close>\<close>

text \<open>
  A file system without symbolic links and permissions: an association list from resolved
  paths (the names from the root directory down) to nodes, read with \<open>map_of\<close>, so that an
  earlier entry shadows a later one. The root directory always exists.
\<close>

datatype node = Dir | File bytes

type_synonym filesystem = "(string list \<times> node) list"

definition node_at :: "filesystem \<Rightarrow> string list \<Rightarrow> node option" where
  "node_at fs c = (if c = [] then Some Dir else map_of fs c)"

definition delete_node :: "string list \<Rightarrow> filesystem \<Rightarrow> filesystem" where
  "delete_node c fs = filter (\<lambda>kv. fst kv \<noteq> c) fs"

text \<open>
  The library calls that \<open>download_data\<close> makes, as they appear in the log of the world,
  and the calls at which the environment may inject a failure.
\<close>

datatype call =
    Path_is_dir pure_path
  | Print string
  | Path_mkdir pure_path
  | Os_mkdir pure_path
  | Open_wb pure_path
  | Requests_get string
  | File_write "string list" bytes
  | ZipFile pure_path
  | Zip_extract_member string
  | Zip_extractall pure_path
  | Os_remove pure_path

datatype outcome = Returned | Answered bool | Raised error

record world =
  files :: filesystem
  cwd :: "string list"
  log :: "(call \<times> outcome) list"

record response =
  status_code :: nat
  content :: bytes

record zip_member =
  filename :: string
  data :: bytes

text \<open>
  What the program cannot control: failures of system calls for reasons outside the
  model (permissions, a full disk), the network, whose answer may depend on what has
  happened so far, and the decoding of a ZIP archive.
\<close>

record env =
  fault :: "world \<Rightarrow> call \<Rightarrow> error option"
  http_get :: "(call \<times> outcome) list \<Rightarrow> string \<Rightarrow> error + response"
  unzip :: "bytes \<Rightarrow> error + zip_member list"

text \<open>
  A library call takes the state, returns a value or raises, and leaves a state; a raised
  exception ends the calling function, and what was done before it stays done.
\<close>

type_synonym ('s, 'a) run = "'s \<Rightarrow> (error + 'a) \<times> 's"

type_synonym 'a io = "(world, 'a) run"

definition io_return :: "'a \<Rightarrow> ('s, 'a) run" where
  "io_return x w = (Inr x, w)"

definition io_bind :: "('s, 'a) run \<Rightarrow> ('a \<Rightarrow> ('s, 'b) run) \<Rightarrow> ('s, 'b) run" where
  "io_bind m f w = (case m w of (Inl e, w') \<Rightarrow> (Inl e, w') | (Inr x, w') \<Rightarrow> f x w')"

definition logged :: "call \<Rightarrow> 'a io \<Rightarrow> 'a io" where
  "logged c m w =
     (case m w of
        (Inl e, w') \<Rightarrow> (Inl e, w'\<lparr>log := log w' @ [(c, Raised e)]\<rparr>)
      | (Inr x, w') \<Rightarrow> (Inr x, w'\<lparr>log := log w' @ [(c, Returned)]\<rparr>))"

subsection \<open>Path resolution\<close>

text \<open>
  The kernel's lookup: every component is looked up in a directory that must exist; \<open>..\<close>
  moves to the parent (the root is its own parent). The last component itself need not
  exist. The empty relative path is the string \<open>.\<close>.
\<close>

definition step :: "string list \<Rightarrow> string \<Rightarrow> string list" where
  "step cur n = (if n = ''.'' then cur else if n = ''..'' then butlast cur else cur @ [n])"

fun walk :: "filesystem \<Rightarrow> string list \<Rightarrow> string list \<Rightarrow> error + string list" where
  "walk fs cur [] = Inr cur"
| "walk fs cur (n # ns) =
     (case node_at fs cur of
        None \<Rightarrow> Inl FileNotFoundError
      | Some (File _) \<Rightarrow> Inl NotADirectoryError
      | Some Dir \<Rightarrow> walk fs (step cur n) ns)"

definition resolve :: "world \<Rightarrow> pure_path \<Rightarrow> error + string list" where
  "resolve w p =
     walk (files w) (if p_root p = '''' then cwd w else [])
       (if p_tail p = [] then [''.''] else p_tail p)"

text \<open>\<open>Path.is_dir\<close>: false when the path cannot be looked up.\<close>

definition is_dir :: "world \<Rightarrow> pure_path \<Rightarrow> bool" where
  "is_dir w p =
     (case resolve w p of Inl _ \<Rightarrow> False | Inr c \<Rightarrow> node_at (files w) c = Some Dir)"

definition path_is_dir :: "pure_path \<Rightarrow> bool io" where
  "path_is_dir p w = (Inr (is_dir w p), w\<lparr>log := log w @ [(Path_is_dir p, Answered (is_dir w p))]\<rparr>)"

definition print :: "string \<Rightarrow> unit io" where
  "print s w = (Inr (), w\<lparr>log := log w @ [(Print s, Returned)]\<rparr>)"

subsection \<open>Creating directories\<close>

definition os_mkdir :: "env \<Rightarrow> pure_path \<Rightarrow> unit io" where
  "os_mkdir env p w =
     (case fault env w (Os_mkdir p) of
        Some e \<Rightarrow> (Inl e, w)
      | None \<Rightarrow>
          (case resolve w p of
             Inl e \<Rightarrow> (Inl e, w)
           | Inr c \<Rightarrow>
               (case node_at (files w) c of
                  Some _ \<Rightarrow> (Inl FileExistsError, w)
                | None \<Rightarrow> (Inr (), w\<lparr>files := (c, Dir) # files w\<rparr>))))"

text \<open>
  \<open>Path.mkdir(parents, exist_ok)\<close> as pathlib writes it: try \<open>os.mkdir\<close>; on
  \<open>FileNotFoundError\<close> create the parent (with \<open>parents=True, exist_ok=True\<close>) and retry
  without \<open>parents\<close>; on any other \<open>OSError\<close> succeed only if \<open>exist_ok\<close> holds and the path
  is a directory.
\<close>

function path_mkdir :: "env \<Rightarrow> pure_path \<Rightarrow> bool \<Rightarrow> bool \<Rightarrow> unit io" where
  "path_mkdir env p parents exist_ok w =
     (case os_mkdir env p w of
        (Inr u, w1) \<Rightarrow> (Inr (), w1)
      | (Inl e, w1) \<Rightarrow>
          (if e = FileNotFoundError then
             (if \<not> parents \<or> parent p = p then (Inl e, w1)
              else (case path_mkdir env (parent p) True True w1 of
                      (Inl e', w2) \<Rightarrow> (Inl e', w2)
                    | (Inr u, w2) \<Rightarrow> path_mkdir env p False exist_ok w2))
           else if is_OSError e then
             (if \<not> exist_ok \<or> \<not> is_dir w1 p then (Inl e, w1) else (Inr (), w1))
           else (Inl e, w1)))"
  by pat_completeness auto
termination
  by (relation "measure (\<lambda>(env, p, parents, exist_ok, w).
        2 * length (p_tail p) + (if parents then 1 else 0))")
     (auto simp: parent_def split: if_splits)

subsection \<open>Files, the network and ZIP archives\<close>

text \<open>
  \<open>open(p, "wb")\<close> creates the file or truncates it; the handle is the resolved path.
\<close>

definition open_wb :: "env \<Rightarrow> pure_path \<Rightarrow> string list io" where
  "open_wb env p w =
     (case fault env w (Open_wb p) of
        Some e \<Rightarrow> (Inl e, w)
      | None \<Rightarrow>
          (case resolve w p of
             Inl e \<Rightarrow> (Inl e, w)
           | Inr c \<Rightarrow>
               (case node_at (files w) c of
                  Some Dir \<Rightarrow> (Inl IsADirectoryError, w)
                | _ \<Rightarrow> (Inr c, w\<lparr>files := (c, File []) # files w\<rparr>))))"

text \<open>\<open>f.write(b)\<close> on a handle: the bytes are appended to what the file holds.\<close>

definition file_write :: "env \<Rightarrow> string list \<Rightarrow> bytes \<Rightarrow> unit io" where
  "file_write env f b w =
     (case fault env w (File_write f b) of
        Some e \<Rightarrow> (Inl e, w)
      | None \<Rightarrow>
          (case node_at (files w) f of
             Some (File old) \<Rightarrow> (Inr (), w\<lparr>files := (f, File (old @ b)) # files w\<rparr>)
           | _ \<Rightarrow> (Inr (), w)))"

text \<open>
  \<open>requests.get(url)\<close>: a response of any status code is returned, not raised; only a
  failure of the transport raises.
\<close>

definition requests_get :: "env \<Rightarrow> string \<Rightarrow> response io" where
  "requests_get env url w = (http_get env (log w) url, w)"

text \<open>
  \<open>zipfile.ZipFile(p, "r")\<close> reads the archive's directory; the handle is the list of its
  members.
\<close>

definition zipfile_open :: "env \<Rightarrow> pure_path \<Rightarrow> zip_member list io" where
  "zipfile_open env p w =
     (case fault env w (ZipFile p) of
        Some e \<Rightarrow> (Inl e, w)
      | None \<Rightarrow>
          (case resolve w p of
             Inl e \<Rightarrow> (Inl e, w)
           | Inr c \<Rightarrow>
               (case node_at (files w) c of
                  None \<Rightarrow> (Inl FileNotFoundError, w)
                | Some Dir \<Rightarrow> (Inl IsADirectoryError, w)
                | Some (File b) \<Rightarrow>
                    (case unzip env b of Inl e \<Rightarrow> (Inl e, w) | Inr ms \<Rightarrow> (Inr ms, w)))))"

text \<open>
  A member is a directory entry when its name ends with a slash. Its place below the
  target directory is its name without empty, \<open>.\<close> and \<open>..\<close> components.
\<close>

definition member_is_dir :: "zip_member \<Rightarrow> bool" where
  "member_is_dir m = (filename m \<noteq> [] \<and> last (filename m) = CHR ''/'')"

definition arcname :: "zip_member \<Rightarrow> string list" where
  "arcname m =
     filter (\<lambda>x. x \<noteq> '''' \<and> x \<noteq> ''.'' \<and> x \<noteq> ''..'') (split_sep CHR ''/'' (filename m))"

text \<open>
  The directories above a member are created where they are missing; a regular file in
  their place makes the extraction fail. What was created before a failure stays.
\<close>

fun ensure_dirs :: "string list \<Rightarrow> string list \<Rightarrow> filesystem \<Rightarrow> error option \<times> filesystem" where
  "ensure_dirs cur [] fs = (None, fs)"
| "ensure_dirs cur (n # ns) fs =
     (case node_at fs (cur @ [n]) of
        None \<Rightarrow> ensure_dirs (cur @ [n]) ns ((cur @ [n], Dir) # fs)
      | Some Dir \<Rightarrow> ensure_dirs (cur @ [n]) ns fs
      | Some (File _) \<Rightarrow> (Some NotADirectoryError, fs))"

definition extract_member :: "env \<Rightarrow> pure_path \<Rightarrow> zip_member \<Rightarrow> unit io" where
  "extract_member env dest m w =
     (case fault env w (Zip_extract_member (filename m)) of
        Some e \<Rightarrow> (Inl e, w)
      | None \<Rightarrow>
          (case resolve w dest of
             Inl e \<Rightarrow> (Inl e, w)
           | Inr base \<Rightarrow>
               (case ensure_dirs base (butlast (arcname m)) (files w) of
                  (Some e, fs1) \<Rightarrow> (Inl e, w\<lparr>files := fs1\<rparr>)
                | (None, fs1) \<Rightarrow>
                    (if member_is_dir m then
                       (case node_at fs1 (base @ arcname m) of
                          Some Dir \<Rightarrow> (Inr (), w\<lparr>files := fs1\<rparr>)
                        | Some (File _) \<Rightarrow> (Inl FileExistsError, w\<lparr>files := fs1\<rparr>)
                        | None \<Rightarrow> (Inr (), w\<lparr>files := (base @ arcname m, Dir) # fs1\<rparr>))
                     else
                       (case node_at fs1 (base @ arcname m) of
                          Some Dir \<Rightarrow> (Inl IsADirectoryError, w\<lparr>files := fs1\<rparr>)
                        | _ \<Rightarrow> (Inr (), w\<lparr>files := (base @ arcname m, File (data m)) # fs1\<rparr>))))))"

text \<open>\<open>ZipFile.extractall(dest)\<close>: every member in the order of the archive.\<close>

fun extractall :: "env \<Rightarrow> zip_member list \<Rightarrow> pure_path \<Rightarrow> unit io" where
  "extractall env [] dest w = (Inr (), w)"
| "extractall env (m # ms) dest w =
     (case extract_member env dest m w of
        (Inl e, w') \<Rightarrow> (Inl e, w')
      | (Inr u, w') \<Rightarrow> extractall env ms dest w')"

definition os_remove :: "env \<Rightarrow> pure_path \<Rightarrow> unit io" where
  "os_remove env p w =
     (case fault env w (Os_remove p) of
        Some e \<Rightarrow> (Inl e, w)
      | None \<Rightarrow>
          (case resolve w p of
             Inl e \<Rightarrow> (Inl e, w)
           | Inr c \<Rightarrow>
               (case node_at (files w) c of
                  None \<Rightarrow> (Inl FileNotFoundError, w)
                | Some Dir \<Rightarrow> (Inl IsADirectoryError, w)
                | Some (File _) \<Rightarrow> (Inr (), w\<lparr>files := delete_node c (files w)\<rparr>))))"


section \<open>\<open>data_setup.download_data\<close>\<close>

definition data_path :: pure_path where
  "data_path = Path ''data/''"

definition image_path :: "string \<Rightarrow> pure_path" where
  "image_path destination = joinpath data_path destination"

definition target_file :: "string \<Rightarrow> string" where
  "target_file source = name (Path source)"

definition archive_path :: "string \<Rightarrow> pure_path" where
  "archive_path source = joinpath data_path (target_file source)"

definition download_data :: "env \<Rightarrow> string \<Rightarrow> string \<Rightarrow> bool \<Rightarrow> pure_path io" where
  "download_data env source destination remove_source =
     io_bind (path_is_dir (image_path destination)) (\<lambda>found.
       if found then
         io_bind (print (''[INFO] '' @ str_path (image_path destination)
                          @ '' directory exists, skipping download.'')) (\<lambda>_.
         io_return (image_path destination))
       else
         io_bind (print (''[INFO] Did not find '' @ str_path (image_path destination)
                          @ '' directory, creating one...'')) (\<lambda>_.
         io_bind (logged (Path_mkdir (image_path destination))
                    (path_mkdir env (image_path destination) True True)) (\<lambda>_.
         io_bind (logged (Open_wb (archive_path source))
                    (open_wb env (archive_path source))) (\<lambda>f.
         io_bind (logged (Requests_get source) (requests_get env source)) (\<lambda>request.
         io_bind (print (''[INFO] Downloading '' @ target_file source @ '' from ''
                          @ source @ ''...'')) (\<lambda>_.
         io_bind (logged (File_write f (content request))
                    (file_write env f (content request))) (\<lambda>_.
         io_bind (logged (ZipFile (archive_path source))
                    (zipfile_open env (archive_path source))) (\<lambda>zip_ref.
         io_bind (print (''[INFO] Unzipping '' @ target_file source @ '' data...'')) (\<lambda>_.
         io_bind (logged (Zip_extractall (image_path destination))
                    (extractall env zip_ref (image_path destination))) (\<lambda>_.
         io_bind (if remove_source
                  then logged (Os_remove (archive_path source))
                         (os_remove env (archive_path source))
                  else io_return ()) (\<lambda>_.
         io_return (image_path destination))))))))))))"

section \<open>torchvision's \<open>ImageFolder\<close> and torch's \<open>DataLoader\<close>\<close>

definition sum_bind :: "'e + 'a \<Rightarrow> ('a \<Rightarrow> 'e + 'b) \<Rightarrow> 'e + 'b" where
  "sum_bind r f = (case r of Inl e \<Rightarrow> Inl e | Inr x \<Rightarrow> f x)"

text \<open>The names in a directory, as \<open>os.scandir\<close> lists them (in no particular order).\<close>

definition scandir :: "filesystem \<Rightarrow> string list \<Rightarrow> string list" where
  "scandir fs c =
     remdups (map (\<lambda>kv. last (fst kv))
       (filter (\<lambda>kv. fst kv \<noteq> [] \<and> butlast (fst kv) = c \<and> node_at fs (fst kv) \<noteq> None) fs))"

text \<open>
  \<open>find_classes\<close>: the sorted names of the immediate subdirectories; a directory without
  subdirectories is an error.
\<close>

definition find_classes :: "world \<Rightarrow> string \<Rightarrow> error + string list" where
  "find_classes w directory =
     (case resolve w (Path directory) of
        Inl e \<Rightarrow> Inl e
      | Inr c \<Rightarrow>
          (case node_at (files w) c of
             None \<Rightarrow> Inl FileNotFoundError
           | Some (File _) \<Rightarrow> Inl NotADirectoryError
           | Some Dir \<Rightarrow>
               (let classes = sort (filter (\<lambda>n. node_at (files w) (c @ [n]) = Some Dir)
                                      (scandir (files w) c))
                in if classes = [] then Inl FileNotFoundError else Inr classes)))"

definition IMG_EXTENSIONS :: "string list" where
  "IMG_EXTENSIONS =
     [''.jpg'', ''.jpeg'', ''.png'', ''.ppm'', ''.bmp'', ''.pgm'', ''.tif'', ''.tiff'', ''.webp'']"

definition lower_char :: "char \<Rightarrow> char" where
  "lower_char c =
     (if CHR ''A'' \<le> c \<and> c \<le> CHR ''Z'' then char_of (of_char c + (32 :: nat)) else c)"

definition endswith :: "string \<Rightarrow> string \<Rightarrow> bool" where
  "endswith s suffix =
     (length suffix \<le> length s \<and> drop (length s - length suffix) s = suffix)"

definition has_file_allowed_extension :: "string \<Rightarrow> bool" where
  "has_file_allowed_extension fname = list_ex (endswith (map lower_char fname)) IMG_EXTENSIONS"

definition is_file :: "filesystem \<Rightarrow> string list \<Rightarrow> bool" where
  "is_file fs k = (case node_at fs k of Some (File _) \<Rightarrow> True | _ \<Rightarrow> False)"

definition is_below :: "filesystem \<Rightarrow> string list \<Rightarrow> string list \<Rightarrow> bool" where
  "is_below fs d k =
     (length d < length k \<and> take (length d) k = d \<and>
      list_all (\<lambda>i. node_at fs (take i k) = Some Dir) [length d ..< length k])"

text \<open>
  The regular files below a directory in the order of \<open>sorted(os.walk(d))\<close> with sorted
  file names: by the path of the containing directory, then by name.
\<close>

definition walk_files :: "filesystem \<Rightarrow> string list \<Rightarrow> string list list" where
  "walk_files fs d =
     sort_key (\<lambda>k. join_sep ''/'' (butlast (drop (length d) k)))
       (sort_key last
          (remdups (filter (\<lambda>k. is_below fs d k \<and> is_file fs k) (map fst fs))))"

definition class_samples :: "filesystem \<Rightarrow> string list \<Rightarrow> string \<Rightarrow> string list list" where
  "class_samples fs c cls =
     filter (\<lambda>k. has_file_allowed_extension (last k)) (walk_files fs (c @ [cls]))"

record 't dataset =
  ds_root :: string
  classes :: "string list"
  samples :: "(string list \<times> nat) list"
  transform :: 't

text \<open>
  \<open>ImageFolder(root, transform)\<close>: the classes of \<open>root\<close>, then the image files of every
  class labelled with the index of the class; a class without an image file is an error.
\<close>

definition ImageFolder :: "world \<Rightarrow> string \<Rightarrow> 't \<Rightarrow> error + 't dataset" where
  "ImageFolder w root_dir tf =
     sum_bind (find_classes w root_dir) (\<lambda>cs.
       (case resolve w (Path root_dir) of
          Inl e \<Rightarrow> Inl e
        | Inr c \<Rightarrow>
            if list_ex (\<lambda>cls. class_samples (files w) c cls = []) cs
            then Inl FileNotFoundError
            else Inr \<lparr>ds_root = root_dir, classes = cs,
                      samples = concat (map (\<lambda>(i, cls). map (\<lambda>k. (k, i))
                                    (class_samples (files w) c cls)) (enumerate 0 cs)),
                      transform = tf\<rparr>))"

record 't dataloader =
  dataset :: "'t dataset"
  batch_size :: int
  shuffle :: bool
  num_workers :: int
  pin_memory :: bool

text \<open>
  The constructor checks its arguments in this order: the worker count (comparing \<open>None\<close>
  with a number is a \<open>TypeError\<close>), the random sampler's sample count when \<open>shuffle\<close> is
  set, the batch size.
\<close>

definition DataLoader ::
  "'t dataset \<Rightarrow> int \<Rightarrow> bool \<Rightarrow> int option \<Rightarrow> bool \<Rightarrow> error + 't dataloader" where
  "DataLoader ds bs shuf nw pin =
     (case nw of
        None \<Rightarrow> Inl (TypeError ''num_workers'')
      | Some n \<Rightarrow>
          if n < 0 then Inl (ValueError ''num_workers'')
          else if shuf \<and> samples ds = [] then Inl (ValueError ''num_samples'')
          else if bs \<le> 0 then Inl (ValueError ''batch_size'')
          else Inr \<lparr>dataset = ds, batch_size = bs, shuffle = shuf, num_workers = n,
                    pin_memory = pin\<rparr>)"

text \<open>
  One traversal of a loader: a random sampler draws a permutation from the generator as
  it is when the traversal starts, a sequential sampler counts up and leaves the generator
  alone; the samples are grouped into batches, the last one possibly short.
\<close>

function chunks :: "nat \<Rightarrow> 'a list \<Rightarrow> 'a list list" where
  "chunks n xs = (if n = 0 \<or> xs = [] then [] else take n xs # chunks n (drop n xs))"
  by pat_completeness auto
termination
  by (relation "measure (\<lambda>(n, xs). length xs)") auto

definition sampler_order ::
  "('g \<Rightarrow> nat \<Rightarrow> nat list \<times> 'g) \<Rightarrow> 't dataloader \<Rightarrow> 'g \<Rightarrow> nat list \<times> 'g" where
  "sampler_order randperm dl g =
     (if shuffle dl then randperm g (length (samples (dataset dl)))
      else ([0 ..< length (samples (dataset dl))], g))"

definition traverse ::
  "('g \<Rightarrow> nat \<Rightarrow> nat list \<times> 'g) \<Rightarrow> 't dataloader \<Rightarrow> 'g
     \<Rightarrow> (string list \<times> nat) list list \<times> 'g" where
  "traverse randperm dl g =
     (case sampler_order randperm dl g of (order, g') \<Rightarrow>
        (chunks (nat (batch_size dl))
           (map (\<lambda>i. samples (dataset dl) ! i)
              (filter (\<lambda>i. i < length (samples (dataset dl))) order)), g'))"


section \<open>\<open>data_setup.create_dataloaders\<close>\<close>

text \<open>
  \<open>NUM_WORKERS = os.cpu_count()\<close> is evaluated when the module is imported;
  \<open>os.cpu_count()\<close> is \<open>None\<close> when the count cannot be determined. A default argument is
  bound when the function is defined, so a call that omits \<open>num_workers\<close> uses the value
  of the module.
\<close>

record host =
  cpu_count :: "int option"

record data_setup_module =
  NUM_WORKERS :: "int option"

definition import_data_setup :: "host \<Rightarrow> data_setup_module" where
  "import_data_setup h = \<lparr>NUM_WORKERS = cpu_count h\<rparr>"

datatype 'a argument = Omitted | Given 'a

definition create_dataloaders ::
  "data_setup_module \<Rightarrow> world \<Rightarrow> string \<Rightarrow> string \<Rightarrow> 't \<Rightarrow> 't \<Rightarrow> int \<Rightarrow> int option argument
     \<Rightarrow> error + ('t dataloader \<times> 't dataloader \<times> string list)" where
  "create_dataloaders module w train_dir test_dir train_transform test_transform
      batch_size_arg num_workers_arg =
     (let num_workers_val =
            (case num_workers_arg of Omitted \<Rightarrow> NUM_WORKERS module | Given n \<Rightarrow> n) in
      sum_bind (ImageFolder w train_dir train_transform) (\<lambda>train_data.
      sum_bind (ImageFolder w test_dir test_transform) (\<lambda>test_data.
      let class_names = classes train_data in
      sum_bind (DataLoader train_data batch_size_arg True num_workers_val True)
        (\<lambda>train_dataloader.
      sum_bind (DataLoader test_data batch_size_arg False num_workers_val True)
        (\<lambda>test_dataloader.
      Inr (train_dataloader, test_dataloader, class_names))))))"

section \<open>torch modules and the pretrained vision transformer\<close>

datatype device = CPU | CUDA nat | MPS

datatype 't parameter = Parameter (p_data: 't) (requires_grad: bool) (p_device: device)

datatype 't module =
    Linear (in_features: int) (out_features: int) (weight: "'t parameter") (bias: "'t parameter")
  | Sequential "'t module list"

fun module_parameters :: "'t module \<Rightarrow> 't parameter list" where
  "module_parameters (Linear _ _ w b) = [w, b]"
| "module_parameters (Sequential ms) = concat (map module_parameters ms)"

fun map_module :: "('t parameter \<Rightarrow> 't parameter) \<Rightarrow> 't module \<Rightarrow> 't module" where
  "map_module f (Linear i out w b) = Linear i out (f w) (f b)"
| "map_module f (Sequential ms) = Sequential (map (map_module f) ms)"

text \<open>
  The \<open>VisionTransformer\<close>: the named parameters of everything but the classification head
  (patch projection, class token, encoder), and the head in the attribute \<open>heads\<close>.
\<close>

record 't vit =
  backbone :: "(string \<times> 't parameter) list"
  heads :: "'t module"

definition parameters :: "'t vit \<Rightarrow> 't parameter list" where
  "parameters m = map snd (backbone m) @ module_parameters (heads m)"

datatype torch_call =
    Vit_b_16
  | To "device option"
  | Set_seeds
  | Linear_ctor int int

record 'g torch_state =
  rng :: 'g
  tlog :: "(torch_call \<times> outcome) list"

text \<open>
  What the program cannot control: the construction of the pretrained model (its weights
  are fetched, which can fail, and its construction draws from the generator), which
  devices can be used, the device on which a new tensor is created, and the values that
  the initialisation of a linear layer draws from the generator.
\<close>

record ('g, 't) torch_env =
  pretrained :: "'g \<Rightarrow> (error + 't vit) \<times> 'g"
  to_fault :: "device \<Rightarrow> error option"
  default_device :: device
  init_linear :: "'g \<Rightarrow> int \<Rightarrow> int \<Rightarrow> ('t \<times> 't) \<times> 'g"
  seeded :: 'g

definition tlogged :: "torch_call \<Rightarrow> ('g torch_state, 'a) run \<Rightarrow> ('g torch_state, 'a) run" where
  "tlogged c m st =
     (case m st of
        (Inl e, st') \<Rightarrow> (Inl e, st'\<lparr>tlog := tlog st' @ [(c, Raised e)]\<rparr>)
      | (Inr x, st') \<Rightarrow> (Inr x, st'\<lparr>tlog := tlog st' @ [(c, Returned)]\<rparr>))"

definition vit_b_16 :: "('g, 't) torch_env \<Rightarrow> ('g torch_state, 't vit) run" where
  "vit_b_16 tenv st = (case pretrained tenv (rng st) of (r, g') \<Rightarrow> (r, st\<lparr>rng := g'\<rparr>))"

definition set_device :: "device \<Rightarrow> 't parameter \<Rightarrow> 't parameter" where
  "set_device d p = Parameter (p_data p) (requires_grad p) d"

definition set_requires_grad :: "bool \<Rightarrow> 't parameter \<Rightarrow> 't parameter" where
  "set_requires_grad b p = Parameter (p_data p) b (p_device p)"

text \<open>\<open>module.to(device)\<close>: \<open>None\<close> moves nothing; a device that cannot be used raises.\<close>

definition module_to ::
  "('g, 't) torch_env \<Rightarrow> device option \<Rightarrow> 't module \<Rightarrow> ('g torch_state, 't module) run" where
  "module_to tenv dev m st =
     (case dev of
        None \<Rightarrow> (Inr m, st)
      | Some d \<Rightarrow>
          (case to_fault tenv d of
             Some e \<Rightarrow> (Inl e, st)
           | None \<Rightarrow> (Inr (map_module (set_device d) m), st)))"

definition vit_to ::
  "('g, 't) torch_env \<Rightarrow> device option \<Rightarrow> 't vit \<Rightarrow> ('g torch_state, 't vit) run" where
  "vit_to tenv dev m st =
     (case dev of
        None \<Rightarrow> (Inr m, st)
      | Some d \<Rightarrow>
          (case to_fault tenv d of
             Some e \<Rightarrow> (Inl e, st)
           | None \<Rightarrow>
               (Inr (m\<lparr>backbone := map (\<lambda>(n, p). (n, set_device d p)) (backbone m),
                        heads := map_module (set_device d) (heads m)\<rparr>), st)))"

text \<open>
  \<open>nn.Linear(in_features, out_features)\<close>: a tensor of a negative size cannot be created;
  otherwise weight and bias are drawn from the generator, on the default device, with
  gradient tracking on.
\<close>

definition nn_Linear ::
  "('g, 't) torch_env \<Rightarrow> int \<Rightarrow> int \<Rightarrow> ('g torch_state, 't module) run" where
  "nn_Linear tenv n_in n_out st =
     (if n_in < 0 \<or> n_out < 0 then (Inl (RuntimeError ''negative dimension''), st)
      else (case init_linear tenv (rng st) n_in n_out of
              ((w, b), g') \<Rightarrow>
                (Inr (Linear n_in n_out (Parameter w True (default_device tenv))
                        (Parameter b True (default_device tenv))),
                 st\<lparr>rng := g'\<rparr>)))"

text \<open>
  Modelled from the spec: \<open>utils.set_seeds\<close> is imported by \<open>model_builder\<close> but is not
  among the sources. The spec says that it fixes a global random seed: the global
  generator is put into the state that the fixed seed determines.
\<close>

definition set_seeds :: "('g, 't) torch_env \<Rightarrow> ('g torch_state, unit) run" where
  "set_seeds tenv st = (Inr (), st\<lparr>rng := seeded tenv\<rparr>)"


section \<open>\<open>model_builder.create_model_baseline_vit\<close>\<close>

definition freeze_parameters :: "'t vit \<Rightarrow> 't vit" where
  "freeze_parameters m =
     m\<lparr>backbone := map (\<lambda>(n, p). (n, set_requires_grad False p)) (backbone m),
       heads := map_module (set_requires_grad False) (heads m)\<rparr>"

definition create_model_baseline_vit ::
  "('g, 't) torch_env \<Rightarrow> int \<Rightarrow> device option \<Rightarrow> ('g torch_state, 't vit) run" where
  "create_model_baseline_vit tenv out_feats dev =
     io_bind (tlogged Vit_b_16 (vit_b_16 tenv)) (\<lambda>model.
     io_bind (tlogged (To dev) (vit_to tenv dev model)) (\<lambda>pretrained_vit.
     let frozen_vit = freeze_parameters pretrained_vit in
     io_bind (tlogged Set_seeds (set_seeds tenv)) (\<lambda>_.
     io_bind (tlogged (Linear_ctor 768 out_feats) (nn_Linear tenv 768 out_feats)) (\<lambda>linear.
     io_bind (tlogged (To dev) (module_to tenv dev linear)) (\<lambda>new_heads.
     io_return (frozen_vit\<lparr>heads := new_heads\<rparr>))))))"


section \<open>Notions used in the statements\<close>

text \<open>Every directory of the first world is a directory of the second.\<close>

definition dirs_kept :: "world \<Rightarrow> world \<Rightarrow> bool" where
  "dirs_kept w w' \<longleftrightarrow>
     cwd w' = cwd w \<and>
     (\<forall>c. node_at (files w) c = Some Dir \<longrightarrow> node_at (files w') c = Some Dir)"

text \<open>
  The node that a successful extraction leaves at the place of a member: a directory for
  a directory entry, otherwise a file with the bytes of the last member of that place.
\<close>

definition member_node :: "zip_member list \<Rightarrow> zip_member \<Rightarrow> node" where
  "member_node ms m =
     (if member_is_dir m then Dir
      else File (data (last (filter (\<lambda>m'. arcname m' = arcname m) ms))))"


text \<open>
  The part of \<open>download_data\<close> that follows the creation of the directory, named for the
  statements about a run that got that far.
\<close>

definition fetch_and_extract :: "env \<Rightarrow> string \<Rightarrow> string \<Rightarrow> bool \<Rightarrow> pure_path io" where
  "fetch_and_extract env source destination remove_source =
     io_bind (logged (Open_wb (archive_path source))
                (open_wb env (archive_path source))) (\<lambda>f.
     io_bind (logged (Requests_get source) (requests_get env source)) (\<lambda>request.
     io_bind (print (''[INFO] Downloading '' @ target_file source @ '' from ''
                      @ source @ ''...'')) (\<lambda>_.
     io_bind (logged (File_write f (content request))
                (file_write env f (content request))) (\<lambda>_.
     io_bind (logged (ZipFile (archive_path source))
                (zipfile_open env (archive_path source))) (\<lambda>zip_ref.
     io_bind (print (''[INFO] Unzipping '' @ target_file source @ '' data...'')) (\<lambda>_.
     io_bind (logged (Zip_extractall (image_path destination))
                (extractall env zip_ref (image_path destination))) (\<lambda>_.
     io_bind (if remove_source
              then logged (Os_remove (archive_path source))
                     (os_remove env (archive_path source))
              else io_return ()) (\<lambda>_.
     io_return (image_path destination)))))))))"

text \<open>A computation that keeps every directory, and one that leaves the log alone.\<close>

definition keeps_dirs :: "'a io \<Rightarrow> bool" where
  "keeps_dirs m \<longleftrightarrow> (\<forall>w r w'. m w = (r, w') \<longrightarrow> dirs_kept w w')"

definition keeps_log :: "('s \<Rightarrow> 'l) \<Rightarrow> ('s, 'a) run \<Rightarrow> bool" where
  "keeps_log lg m \<longleftrightarrow> (\<forall>w r w'. m w = (r, w') \<longrightarrow> lg w' = lg w)"

text \<open>
  A computation propagates the exceptions of its library calls when the entries that it
  adds to the log (read with \<open>lg\<close>) are such that only the last one can be a raised
  exception, and the computation ends with an exception exactly when the last entry is
  that exception.
\<close>

definition no_raise :: "('c \<times> outcome) list \<Rightarrow> bool" where
  "no_raise es \<longleftrightarrow> (\<forall>x \<in> set es. \<forall>e. snd x \<noteq> Raised e)"

definition propagates :: "('s \<Rightarrow> ('c \<times> outcome) list) \<Rightarrow> ('s, 'a) run \<Rightarrow> bool" where
  "propagates lg m \<longleftrightarrow>
     (\<forall>w r w'. m w = (r, w') \<longrightarrow>
        (\<exists>es. lg w' = lg w @ es \<and> no_raise (butlast es) \<and>
              (case r of Inl e \<Rightarrow> es \<noteq> [] \<and> snd (last es) = Raised e
                       | Inr _ \<Rightarrow> no_raise es)))"


text \<open>The device of a new module after \<open>.to(device)\<close>.\<close>

definition target_device :: "('g, 't) torch_env \<Rightarrow> device option \<Rightarrow> device" where
  "target_device tenv dev = (case dev of None \<Rightarrow> default_device tenv | Some d \<Rightarrow> d)"


section \<open>Example worlds\<close>

definition example_url :: string where
  "example_url = ''https://example.com/data/pizza_steak_sushi.zip''"

definition example_members :: "zip_member list" where
  "example_members =
     [\<lparr>filename = ''train/pizza/1.jpg'', data = [1]\<rparr>,
      \<lparr>filename = ''train/steak/2.jpg'', data = [2]\<rparr>,
      \<lparr>filename = ''test/sushi/3.jpg'', data = [3]\<rparr>]"

definition example_env :: env where
  "example_env =
     \<lparr>fault = (\<lambda>_ _. None),
      http_get = (\<lambda>_ url. if url = example_url
                           then Inr \<lparr>status_code = 200, content = [80, 75]\<rparr>
                           else Inl (RequestException ''connection'')),
      unzip = (\<lambda>b. if b = [80, 75] then Inr example_members else Inl BadZipFile)\<rparr>"

definition empty_world :: world where
  "empty_world = \<lparr>files = [([''home''], Dir)], cwd = [''home''], log = []\<rparr>"

definition downloaded_world :: world where
  "downloaded_world =
     \<lparr>files = [([''home'', ''data'', ''pizza_steak_sushi''], Dir),
               ([''home'', ''data''], Dir), ([''home''], Dir)],
      cwd = [''home''], log = []\<rparr>"

definition missing_url :: string where
  "missing_url = ''https://example.com/data/missing.zip''"

text \<open>The world that a failed download leaves behind, starting from \<open>empty_world\<close>.\<close>

definition failed_world :: world where
  "failed_world =
     \<lparr>files = [([''home'', ''data'', ''missing.zip''], File []),
               ([''home'', ''data'', ''pizza_steak_sushi''], Dir),
               ([''home'', ''data''], Dir), ([''home''], Dir)],
      cwd = [''home''],
      log = [(Path_is_dir (PurePath [] [''data'', ''pizza_steak_sushi'']), Answered False),
             (Print ''[INFO] Did not find data/pizza_steak_sushi directory, creating one...'',
              Returned),
             (Path_mkdir (PurePath [] [''data'', ''pizza_steak_sushi'']), Returned),
             (Open_wb (PurePath [] [''data'', ''missing.zip'']), Returned),
             (Requests_get ''https://example.com/data/missing.zip'',
              Raised (RequestException ''connection''))]\<rparr>"

text \<open>The world after a download into \<open>empty_world\<close>, with the archive removed and kept.\<close>

definition extracted_files :: filesystem where
  "extracted_files =
     [([''home'', ''data'', ''pizza_steak_sushi'', ''test'', ''sushi'', ''3.jpg''], File [3]),
      ([''home'', ''data'', ''pizza_steak_sushi'', ''test'', ''sushi''], Dir),
      ([''home'', ''data'', ''pizza_steak_sushi'', ''test''], Dir),
      ([''home'', ''data'', ''pizza_steak_sushi'', ''train'', ''steak'', ''2.jpg''], File [2]),
      ([''home'', ''data'', ''pizza_steak_sushi'', ''train'', ''steak''], Dir),
      ([''home'', ''data'', ''pizza_steak_sushi'', ''train'', ''pizza'', ''1.jpg''], File [1]),
      ([''home'', ''data'', ''pizza_steak_sushi'', ''train'', ''pizza''], Dir),
      ([''home'', ''data'', ''pizza_steak_sushi'', ''train''], Dir)]"

definition download_log :: "(call \<times> outcome) list" where
  "download_log =
     [(Path_is_dir (PurePath [] [''data'', ''pizza_steak_sushi'']), Answered False),
      (Print ''[INFO] Did not find data/pizza_steak_sushi directory, creating one...'',
       Returned),
      (Path_mkdir (PurePath [] [''data'', ''pizza_steak_sushi'']), Returned),
      (Open_wb (PurePath [] [''data'', ''pizza_steak_sushi.zip'']), Returned),
      (Requests_get ''https://example.com/data/pizza_steak_sushi.zip'', Returned),
      (Print (''[INFO] Downloading pizza_steak_sushi.zip from ''
                @ ''https://example.com/data/pizza_steak_sushi.zip...''), Returned),
      (File_write [''home'', ''data'', ''pizza_steak_sushi.zip''] [80, 75], Returned),
      (ZipFile (PurePath [] [''data'', ''pizza_steak_sushi.zip'']), Returned),
      (Print ''[INFO] Unzipping pizza_steak_sushi.zip data...'', Returned),
      (Zip_extractall (PurePath [] [''data'', ''pizza_steak_sushi'']), Returned)]"

definition fresh_world :: world where
  "fresh_world =
     \<lparr>files = extracted_files @
               [([''home'', ''data'', ''pizza_steak_sushi''], Dir),
                ([''home'', ''data''], Dir), ([''home''], Dir)],
      cwd = [''home''],
      log = download_log @
              [(Os_remove (PurePath [] [''data'', ''pizza_steak_sushi.zip'']), Returned)]\<rparr>"

definition kept_world :: world where
  "kept_world =
     \<lparr>files = extracted_files @
               [([''home'', ''data'', ''pizza_steak_sushi.zip''], File [80, 75]),
                ([''home'', ''data'', ''pizza_steak_sushi.zip''], File []),
                ([''home'', ''data'', ''pizza_steak_sushi''], Dir),
                ([''home'', ''data''], Dir), ([''home''], Dir)],
      cwd = [''home''],
      log = download_log\<rparr>"

text \<open>
  An archive with one empty member that is named like the archive itself, downloaded
  into the data directory: the member is extracted onto the archive file.
\<close>

definition collision_url :: string where
  "collision_url = ''https://example.com/x.zip''"

definition collision_member :: zip_member where
  "collision_member = \<lparr>filename = ''x.zip'', data = []\<rparr>"

definition collision_env :: env where
  "collision_env =
     \<lparr>fault = (\<lambda>_ _. None),
      http_get = (\<lambda>_ _. Inr \<lparr>status_code = 200, content = [80, 75]\<rparr>),
      unzip = (\<lambda>b. if b = [80, 75] then Inr [collision_member] else Inl BadZipFile)\<rparr>"

definition collided_world :: world where
  "collided_world =
     \<lparr>files = [([''home'', ''data''], Dir), ([''home''], Dir)],
      cwd = [''home''],
      log = [(Path_is_dir (PurePath [] [''data'']), Answered False),
             (Print ''[INFO] Did not find data directory, creating one...'', Returned),
             (Path_mkdir (PurePath [] [''data'']), Returned),
             (Open_wb (PurePath [] [''data'', ''x.zip'']), Returned),
             (Requests_get ''https://example.com/x.zip'', Returned),
             (Print ''[INFO] Downloading x.zip from https://example.com/x.zip...'', Returned),
             (File_write [''home'', ''data'', ''x.zip''] [80, 75], Returned),
             (ZipFile (PurePath [] [''data'', ''x.zip'']), Returned),
             (Print ''[INFO] Unzipping x.zip data...'', Returned),
             (Zip_extractall (PurePath [] [''data'']), Returned),
             (Os_remove (PurePath [] [''data'', ''x.zip'']), Returned)]\<rparr>"

text \<open>The loaders over the training and testing directories of \<open>fresh_world\<close>.\<close>

definition example_train_dir :: string where
  "example_train_dir = ''data/pizza_steak_sushi/train''"

definition example_test_dir :: string where
  "example_test_dir = ''data/pizza_steak_sushi/test''"

definition example_host :: host where
  "example_host = \<lparr>cpu_count = Some 4\<rparr>"

definition example_train_loader :: "nat dataloader" where
  "example_train_loader =
     \<lparr>dataset =
        \<lparr>ds_root = ''data/pizza_steak_sushi/train'',
         classes = [''pizza'', ''steak''],
         samples =
           [([''home'', ''data'', ''pizza_steak_sushi'', ''train'', ''pizza'', ''1.jpg''], 0),
            ([''home'', ''data'', ''pizza_steak_sushi'', ''train'', ''steak'', ''2.jpg''], 1)],
         transform = 0\<rparr>,
      batch_size = 32, shuffle = True, num_workers = 4, pin_memory = True\<rparr>"

definition example_test_loader :: "nat dataloader" where
  "example_test_loader =
     \<lparr>dataset =
        \<lparr>ds_root = ''data/pizza_steak_sushi/test'',
         classes = [''sushi''],
         samples =
           [([''home'', ''data'', ''pizza_steak_sushi'', ''test'', ''sushi'', ''3.jpg''], 0)],
         transform = 1\<rparr>,
      batch_size = 32, shuffle = False, num_workers = 4, pin_memory = True\<rparr>"

text \<open>A generator that counts its draws, and whose permutation is the reversal.\<close>

definition example_randperm :: "nat \<Rightarrow> nat \<Rightarrow> nat list \<times> nat" where
  "example_randperm g n = (rev [0 ..< n], Suc g)"

text \<open>
  A torch environment with a two-parameter backbone, the generator a counter, and the
  initial values of a linear layer determined by the counter and the sizes.
\<close>

definition example_vit :: "nat list vit" where
  "example_vit =
     \<lparr>backbone = [(''conv_proj.weight'', Parameter [1, 2] True CPU),
                  (''encoder.ln.weight'', Parameter [3] True CPU)],
      heads = Sequential [Linear 768 1000 (Parameter [4] True CPU) (Parameter [5] True CPU)]\<rparr>"

definition example_torch_env :: "(nat, nat list) torch_env" where
  "example_torch_env =
     \<lparr>pretrained = (\<lambda>g. (Inr example_vit, Suc g)),
      to_fault = (\<lambda>d. if d = CPU \<or> d = CUDA 0 then None
                       else Some (RuntimeError ''invalid device'')),
      default_device = CPU,
      init_linear = (\<lambda>g i out. (([g, nat i, nat out], [g]), g + 2)),
      seeded = 42\<rparr>"

definition example_model :: "nat list vit" where
  "example_model =
     \<lparr>backbone = [(''conv_proj.weight'', Parameter [1, 2] False (CUDA 0)),
                  (''encoder.ln.weight'', Parameter [3] False (CUDA 0))],
      heads = Linear 768 3 (Parameter [42, 768, 3] True (CUDA 0))
                (Parameter [42] True (CUDA 0))\<rparr>"

definition example_calls :: "(torch_call \<times> outcome) list" where
  "example_calls =
     [(Vit_b_16, Returned), (To (Some (CUDA 0)), Returned), (Set_seeds, Returned),
      (Linear_ctor 768 3, Returned), (To (Some (CUDA 0)), Returned)]"

text \<open>The log of a call of \<open>create_model_baseline_vit\<close> with a negative \<open>out_feats\<close>.\<close>

definition negative_calls :: "(torch_call \<times> outcome) list" where
  "negative_calls =
     [(Vit_b_16, Returned), (To None, Returned), (Set_seeds, Returned),
      (Linear_ctor 768 (- 1), Raised (RuntimeError ''negative dimension''))]"


section \<open>Properties of the file system model\<close>

lemma node_at_Cons:
  "node_at ((c, n) # fs) k =
     (if k = [] then Some Dir else if k = c then Some n else node_at fs k)"
  by (simp add: node_at_def)

lemma map_of_filter_fst:
  "map_of (filter (\<lambda>kv. fst kv \<noteq> c) fs) k = (if k = c then None else map_of fs k)"
  by (induction fs) auto

lemma node_at_delete:
  "node_at (delete_node c fs) k =
     (if k = [] then Some Dir else if k = c then None else node_at fs k)"
  by (simp add: node_at_def delete_node_def map_of_filter_fst)

lemma dirs_kept_refl: "dirs_kept w w"
  by (simp add: dirs_kept_def)

lemma dirs_kept_trans: "dirs_kept w w1 \<Longrightarrow> dirs_kept w1 w2 \<Longrightarrow> dirs_kept w w2"
  by (simp add: dirs_kept_def)

lemma dirs_kept_log: "dirs_kept w (w'\<lparr>log := l\<rparr>) = dirs_kept w w'"
  by (simp add: dirs_kept_def)

lemma walk_mono:
  assumes "\<And>c. node_at fs c = Some Dir \<Longrightarrow> node_at fs' c = Some Dir"
  shows "walk fs cur ns = Inr c \<Longrightarrow> walk fs' cur ns = Inr c"
proof (induction ns arbitrary: cur)
  case Nil
  then show ?case by simp
next
  case (Cons n ns)
  from Cons.prems have d: "node_at fs cur = Some Dir"
    by (auto split: option.splits node.splits)
  with Cons.prems have "walk fs (step cur n) ns = Inr c" by simp
  then have "walk fs' (step cur n) ns = Inr c" by (rule Cons.IH)
  moreover have "node_at fs' cur = Some Dir" using d by (rule assms)
  ultimately show ?case by simp
qed

lemma resolve_mono:
  assumes "dirs_kept w w'" and "resolve w p = Inr c"
  shows "resolve w' p = Inr c"
proof -
  have k: "\<And>c. node_at (files w) c = Some Dir \<Longrightarrow> node_at (files w') c = Some Dir"
    using assms(1) by (simp add: dirs_kept_def)
  have eq: "cwd w' = cwd w" using assms(1) by (simp add: dirs_kept_def)
  from assms(2)
  have "walk (files w) (if p_root p = '''' then cwd w else [])
          (if p_tail p = [] then [''.''] else p_tail p) = Inr c"
    unfolding resolve_def .
  then have "walk (files w') (if p_root p = '''' then cwd w else [])
          (if p_tail p = [] then [''.''] else p_tail p) = Inr c"
    using k by (rule walk_mono [rotated])
  then show ?thesis unfolding resolve_def eq .
qed

lemma is_dir_mono:
  assumes "dirs_kept w w'" and "is_dir w p"
  shows "is_dir w' p"
proof -
  from assms(2) obtain c where c: "resolve w p = Inr c" "node_at (files w) c = Some Dir"
    by (auto simp: is_dir_def split: sum.splits)
  from assms(1) c(1) have "resolve w' p = Inr c" by (rule resolve_mono)
  moreover from assms(1) c(2) have "node_at (files w') c = Some Dir"
    by (simp add: dirs_kept_def)
  ultimately show ?thesis by (simp add: is_dir_def)
qed

lemma resolve_log [simp]: "resolve (w\<lparr>log := l\<rparr>) p = resolve w p"
  by (simp add: resolve_def del: walk.simps)

lemma is_dir_log [simp]: "is_dir (w\<lparr>log := l\<rparr>) p = is_dir w p"
  by (simp add: is_dir_def split: sum.splits)

text \<open>Every primitive keeps the directories and the log.\<close>

lemma os_mkdir_kept: "os_mkdir env p w = (r, w') \<Longrightarrow> dirs_kept w w' \<and> log w' = log w"
  by (auto simp: os_mkdir_def dirs_kept_def node_at_Cons split: option.splits sum.splits)

lemma os_mkdir_Inl: "os_mkdir env p w = (Inl e, w') \<Longrightarrow> w' = w"
  by (auto simp: os_mkdir_def split: option.splits sum.splits)

lemma os_mkdir_Inr:
  assumes "os_mkdir env p w = (Inr u, w')"
  shows "is_dir w' p"
proof -
  from assms obtain c where c: "resolve w p = Inr c" "w' = w\<lparr>files := (c, Dir) # files w\<rparr>"
    by (auto simp: os_mkdir_def split: option.splits sum.splits)
  have "dirs_kept w w'" using os_mkdir_kept [OF assms] by simp
  then have "resolve w' p = Inr c" using c(1) by (rule resolve_mono)
  moreover have "node_at (files w') c = Some Dir" using c(2) by (simp add: node_at_Cons)
  ultimately show ?thesis by (simp add: is_dir_def)
qed

lemma path_mkdir_kept:
  "path_mkdir env p parents exist_ok w = (r, w') \<Longrightarrow> dirs_kept w w' \<and> log w' = log w"
proof (induction env p parents exist_ok w arbitrary: r w' rule: path_mkdir.induct)
  case (1 env p parents exist_ok w)
  obtain r1 w1 where m: "os_mkdir env p w = (r1, w1)" by (cases "os_mkdir env p w")
  note k1 = os_mkdir_kept [OF m]
  show ?case
  proof (cases r1)
    case (Inr u)
    with "1.prems" m k1 show ?thesis by (simp add: path_mkdir.simps [of env p parents exist_ok w])
  next
    case (Inl e)
    show ?thesis
    proof (cases "e = FileNotFoundError \<and> parents \<and> parent p \<noteq> p")
      case False
      with "1.prems" m k1 Inl show ?thesis
        by (auto simp: path_mkdir.simps [of env p parents exist_ok w] split: if_splits)
    next
      case True
      obtain r2 w2 where m2: "path_mkdir env (parent p) True True w1 = (r2, w2)"
        by (cases "path_mkdir env (parent p) True True w1")
      have k2: "dirs_kept w1 w2 \<and> log w2 = log w1"
        using "1.IH"(1) [OF m [symmetric] Inl _ _ m2] True by simp
      show ?thesis
      proof (cases r2)
        case (Inl e2)
        with "1.prems" m True \<open>r1 = Inl e\<close> m2 k1 k2 show ?thesis
          by (auto simp: path_mkdir.simps [of env p parents exist_ok w] intro: dirs_kept_trans)
      next
        case (Inr u2)
        have m3: "path_mkdir env p False exist_ok w2 = (r, w')"
          using "1.prems" m True \<open>r1 = Inl e\<close> m2 Inr
          by (simp add: path_mkdir.simps [of env p parents exist_ok w])
        have "dirs_kept w2 w' \<and> log w' = log w2"
          using "1.IH"(2) [OF m [symmetric] \<open>r1 = Inl e\<close> _ _ m2 [symmetric] Inr m3] True by simp
        with k1 k2 show ?thesis by (auto intro: dirs_kept_trans)
      qed
    qed
  qed
qed

lemma path_mkdir_Inr:
  "path_mkdir env p parents exist_ok w = (Inr u, w') \<Longrightarrow> is_dir w' p"
proof (induction env p parents exist_ok w arbitrary: u w' rule: path_mkdir.induct)
  case (1 env p parents exist_ok w)
  obtain r1 w1 where m: "os_mkdir env p w = (r1, w1)" by (cases "os_mkdir env p w")
  show ?case
  proof (cases r1)
    case (Inr u1)
    with "1.prems" m have "w' = w1" by (simp add: path_mkdir.simps [of env p parents exist_ok w])
    with os_mkdir_Inr m Inr show ?thesis by blast
  next
    case (Inl e)
    show ?thesis
    proof (cases "e = FileNotFoundError \<and> parents \<and> parent p \<noteq> p")
      case False
      with "1.prems" m Inl show ?thesis
        by (auto simp: path_mkdir.simps [of env p parents exist_ok w] split: if_splits)
    next
      case True
      obtain r2 w2 where m2: "path_mkdir env (parent p) True True w1 = (r2, w2)"
        by (cases "path_mkdir env (parent p) True True w1")
      show ?thesis
      proof (cases r2)
        case (Inl e2)
        with "1.prems" m True \<open>r1 = Inl e\<close> m2 show ?thesis
          by (auto simp: path_mkdir.simps [of env p parents exist_ok w])
      next
        case (Inr u2)
        have m3: "path_mkdir env p False exist_ok w2 = (Inr u, w')"
          using "1.prems" m True \<open>r1 = Inl e\<close> m2 Inr
          by (simp add: path_mkdir.simps [of env p parents exist_ok w])
        show ?thesis
          using "1.IH"(2) [OF m [symmetric] \<open>r1 = Inl e\<close> _ _ m2 [symmetric] Inr m3] True by simp
      qed
    qed
  qed
qed

lemma node_at_Nil [simp]: "node_at fs [] = Some Dir"
  by (simp add: node_at_def)

lemma open_wb_kept: "open_wb env p w = (r, w') \<Longrightarrow> dirs_kept w w' \<and> log w' = log w"
  by (auto simp: open_wb_def dirs_kept_def node_at_Cons
           split: option.splits sum.splits node.splits)

lemma open_wb_Inr:
  assumes "open_wb env p w = (Inr c, w')"
  shows "resolve w p = Inr c \<and> w' = w\<lparr>files := (c, File []) # files w\<rparr> \<and> c \<noteq> []"
  using assms
  by (auto simp: open_wb_def node_at_def split: option.splits sum.splits node.splits)

lemma file_write_kept: "file_write env f b w = (r, w') \<Longrightarrow> dirs_kept w w' \<and> log w' = log w"
  by (auto simp: file_write_def dirs_kept_def node_at_Cons
           split: option.splits sum.splits node.splits)

lemma file_write_Inr:
  assumes "file_write env f b w = (Inr u, w')" and "node_at (files w) f = Some (File old)"
  shows "w' = w\<lparr>files := (f, File (old @ b)) # files w\<rparr>"
  using assms
  by (auto simp: file_write_def split: option.splits)

lemma requests_get_same: "requests_get env url w = (r, w') \<Longrightarrow> w' = w"
  by (simp add: requests_get_def)

lemma zipfile_open_same: "zipfile_open env p w = (r, w') \<Longrightarrow> w' = w"
  by (auto simp: zipfile_open_def split: option.splits sum.splits node.splits)

lemma zipfile_open_Inr:
  assumes "zipfile_open env p w = (Inr ms, w')"
  shows "\<exists>c b. resolve w p = Inr c \<and> node_at (files w) c = Some (File b) \<and> unzip env b = Inr ms"
  using assms
  by (auto simp: zipfile_open_def split: option.splits sum.splits node.splits)

lemma os_remove_kept: "os_remove env p w = (r, w') \<Longrightarrow> dirs_kept w w' \<and> log w' = log w"
  by (auto simp: os_remove_def dirs_kept_def node_at_delete
           split: option.splits sum.splits node.splits)

lemma os_remove_Inr:
  assumes "os_remove env p w = (Inr u, w')"
  shows "\<exists>c b. resolve w p = Inr c \<and> node_at (files w) c = Some (File b) \<and>
           w' = w\<lparr>files := delete_node c (files w)\<rparr>"
  using assms
  by (auto simp: os_remove_def split: option.splits sum.splits node.splits)

text \<open>Creating the directories above a member changes no node that exists.\<close>

lemma ensure_dirs_frame:
  "ensure_dirs cur ns fs = (r, fs') \<Longrightarrow> node_at fs k \<noteq> None \<Longrightarrow> node_at fs' k = node_at fs k"
proof (induction ns arbitrary: cur fs)
  case Nil
  then show ?case by simp
next
  case (Cons n ns)
  show ?case
  proof (cases "node_at fs (cur @ [n])")
    case None
    with Cons.prems(1)
    have e: "ensure_dirs (cur @ [n]) ns ((cur @ [n], Dir) # fs) = (r, fs')" by simp
    have k: "k \<noteq> cur @ [n]" using None Cons.prems(2) by auto
    have "node_at ((cur @ [n], Dir) # fs) k = node_at fs k"
      using k by (simp add: node_at_Cons node_at_def)
    with Cons.IH [OF e] Cons.prems(2) show ?thesis by simp
  next
    case (Some nd)
    with Cons.prems Cons.IH show ?thesis by (cases nd) auto
  qed
qed

lemma extract_member_log: "extract_member env dest m w = (r, w') \<Longrightarrow> log w' = log w \<and> cwd w' = cwd w"
  by (auto simp: extract_member_def split: option.splits sum.splits node.splits prod.splits if_splits)

text \<open>
  What the extraction of one member does to the nodes: every node that exists stays as
  it is, but for a regular file at the member's own place, which is overwritten.
\<close>

lemma extract_member_frame:
  assumes "extract_member env dest m w = (r, w')"
      and "resolve w dest = Inr base"
      and "node_at (files w) k \<noteq> None"
      and "k \<noteq> base @ arcname m \<or> node_at (files w) k = Some Dir"
  shows "node_at (files w') k = node_at (files w) k"
proof (cases "fault env w (Zip_extract_member (filename m))")
  case (Some e)
  with assms(1) show ?thesis by (simp add: extract_member_def)
next
  case None
  obtain r1 fs1 where e: "ensure_dirs base (butlast (arcname m)) (files w) = (r1, fs1)"
    by (cases "ensure_dirs base (butlast (arcname m)) (files w)")
  have f1: "node_at fs1 k = node_at (files w) k"
    using ensure_dirs_frame [OF e assms(3)] .
  show ?thesis
    using assms None e f1
    by (auto simp: extract_member_def node_at_Cons
             split: option.splits node.splits if_splits)
qed

lemma extract_member_kept:
  assumes "extract_member env dest m w = (r, w')"
  shows "dirs_kept w w' \<and> log w' = log w"
proof -
  have "node_at (files w') c = Some Dir" if d: "node_at (files w) c = Some Dir" for c
  proof (cases "resolve w dest")
    case (Inl e)
    with assms have "w' = w"
      by (auto simp: extract_member_def split: option.splits)
    with d show ?thesis by simp
  next
    case (Inr base)
    from extract_member_frame [OF assms Inr, of c] d show ?thesis by simp
  qed
  with extract_member_log [OF assms] show ?thesis by (simp add: dirs_kept_def)
qed

lemma extract_member_Inr:
  assumes "extract_member env dest m w = (Inr u, w')" and "resolve w dest = Inr base"
  shows "node_at (files w') (base @ arcname m)
           = Some (if member_is_dir m then Dir else File (data m))"
    and "node_at (files w) (base @ arcname m) = Some Dir \<Longrightarrow> member_is_dir m"
    and "node_at (files w) (base @ arcname m) = Some (File c) \<Longrightarrow> \<not> member_is_dir m"
proof -
  obtain r1 fs1 where e: "ensure_dirs base (butlast (arcname m)) (files w) = (r1, fs1)"
    by (cases "ensure_dirs base (butlast (arcname m)) (files w)")
  have f1: "node_at (files w) k \<noteq> None \<Longrightarrow> node_at fs1 k = node_at (files w) k" for k
    using ensure_dirs_frame [OF e] .
  show "node_at (files w') (base @ arcname m)
           = Some (if member_is_dir m then Dir else File (data m))"
    using assms e
    by (auto simp: extract_member_def node_at_Cons
             split: option.splits node.splits if_splits)
  show "member_is_dir m" if "node_at (files w) (base @ arcname m) = Some Dir"
    using assms e f1 [of "base @ arcname m"] that
    by (auto simp: extract_member_def split: option.splits node.splits if_splits)
  show "\<not> member_is_dir m" if "node_at (files w) (base @ arcname m) = Some (File c)"
    using assms e f1 [of "base @ arcname m"] that
    by (auto simp: extract_member_def split: option.splits node.splits if_splits)
qed

lemma extractall_kept:
  "extractall env ms dest w = (r, w') \<Longrightarrow> dirs_kept w w' \<and> log w' = log w"
proof (induction ms arbitrary: w)
  case Nil
  then show ?case by (simp add: dirs_kept_refl)
next
  case (Cons m ms)
  obtain r1 w1 where e: "extract_member env dest m w = (r1, w1)"
    by (cases "extract_member env dest m w")
  note k1 = extract_member_kept [OF e]
  show ?case
  proof (cases r1)
    case (Inl err)
    with Cons.prems e k1 show ?thesis by simp
  next
    case (Inr u)
    with Cons.prems e have "extractall env ms dest w1 = (r, w')" by simp
    from Cons.IH [OF this] k1 show ?thesis by (auto intro: dirs_kept_trans)
  qed
qed

text \<open>A place that no member of the archive is extracted to keeps its node.\<close>

lemma extractall_frame:
  "extractall env ms dest w = (r, w') \<Longrightarrow> resolve w dest = Inr base \<Longrightarrow>
   node_at (files w) t = Some nd \<Longrightarrow> \<forall>m \<in> set ms. base @ arcname m \<noteq> t \<Longrightarrow>
   node_at (files w') t = Some nd"
proof (induction ms arbitrary: w)
  case Nil
  then show ?case by simp
next
  case (Cons m ms)
  obtain r1 w1 where e: "extract_member env dest m w = (r1, w1)"
    by (cases "extract_member env dest m w")
  have "t \<noteq> base @ arcname m" using Cons.prems(4) by auto
  then have t1: "node_at (files w1) t = Some nd"
    using extract_member_frame [OF e Cons.prems(2), of t] Cons.prems(3) by auto
  show ?case
  proof (cases r1)
    case (Inl err)
    with Cons.prems(1) e t1 show ?thesis by simp
  next
    case (Inr u)
    with Cons.prems(1) e have rest: "extractall env ms dest w1 = (r, w')" by simp
    have "resolve w1 dest = Inr base"
      using extract_member_kept [OF e] Cons.prems(2) by (auto intro: resolve_mono)
    from Cons.IH [OF rest this t1] Cons.prems(4) show ?thesis by simp
  qed
qed

text \<open>A regular file stays a regular file while an archive is extracted.\<close>

lemma extractall_file:
  "extractall env ms dest w = (r, w') \<Longrightarrow> node_at (files w) t = Some (File c) \<Longrightarrow>
   \<exists>c'. node_at (files w') t = Some (File c')"
proof (induction ms arbitrary: w c)
  case Nil
  then show ?case by simp
next
  case (Cons m ms)
  obtain r1 w1 where e: "extract_member env dest m w = (r1, w1)"
    by (cases "extract_member env dest m w")
  have t1: "\<exists>c1. node_at (files w1) t = Some (File c1)"
  proof (cases "resolve w dest")
    case (Inl err)
    with e have "w1 = w" by (auto simp: extract_member_def split: option.splits)
    with Cons.prems(2) show ?thesis by simp
  next
    case (Inr base)
    show ?thesis
    proof (cases "t = base @ arcname m")
      case False
      with extract_member_frame [OF e Inr, of t] Cons.prems(2) show ?thesis by simp
    next
      case True
      show ?thesis
      proof (cases r1)
        case (Inl err)
        obtain r0 fs1 where d: "ensure_dirs base (butlast (arcname m)) (files w) = (r0, fs1)"
          by (cases "ensure_dirs base (butlast (arcname m)) (files w)")
        have "node_at fs1 t = node_at (files w) t"
          using ensure_dirs_frame [OF d, of t] Cons.prems(2) by simp
        with e Inl Inr d Cons.prems(2) True show ?thesis
          by (auto simp: extract_member_def node_at_Cons
                   split: option.splits node.splits if_splits)
      next
        case (Inr u)
        with e have e': "extract_member env dest m w = (Inr u, w1)" by simp
        from extract_member_Inr(3) [OF e' \<open>resolve w dest = Inr base\<close>] Cons.prems(2) True
        have "\<not> member_is_dir m" by simp
        with extract_member_Inr(1) [OF e' \<open>resolve w dest = Inr base\<close>] True
        show ?thesis by simp
      qed
    qed
  qed
  then obtain c1 where c1: "node_at (files w1) t = Some (File c1)" ..
  show ?case
  proof (cases r1)
    case (Inl err)
    with Cons.prems(1) e c1 show ?thesis by simp
  next
    case (Inr u)
    with Cons.prems(1) e have "extractall env ms dest w1 = (r, w')" by simp
    from Cons.IH [OF this c1] show ?thesis .
  qed
qed

lemma member_node_Cons_later:
  assumes "m' \<in> set ms"
  shows "member_node (m # ms) m' = member_node ms m'"
proof -
  have "filter (\<lambda>x. arcname x = arcname m') ms \<noteq> []"
    using assms by (auto simp: filter_empty_conv)
  then show ?thesis by (simp add: member_node_def)
qed

text \<open>
  After a successful extraction every member is at its place below the target directory.
\<close>

lemma extractall_present:
  "extractall env ms dest w = (Inr u, w') \<Longrightarrow> resolve w dest = Inr base \<Longrightarrow> m \<in> set ms \<Longrightarrow>
   node_at (files w') (base @ arcname m) = Some (member_node ms m)"
proof (induction ms arbitrary: w m)
  case Nil
  then show ?case by simp
next
  case (Cons m0 ms)
  obtain r1 w1 where e: "extract_member env dest m0 w = (r1, w1)"
    by (cases "extract_member env dest m0 w")
  with Cons.prems(1) obtain u1 where r1: "r1 = Inr u1" by (cases r1) auto
  with Cons.prems(1) e have rest: "extractall env ms dest w1 = (Inr u, w')" by simp
  have e': "extract_member env dest m0 w = (Inr u1, w1)" using e r1 by simp
  have res1: "resolve w1 dest = Inr base"
    using extract_member_kept [OF e] Cons.prems(2) by (auto intro: resolve_mono)
  show ?case
  proof (cases "m \<in> set ms")
    case True
    from Cons.IH [OF rest res1 True] member_node_Cons_later [OF True] show ?thesis by simp
  next
    case False
    with Cons.prems(3) have m: "m = m0" by simp
    let ?t = "base @ arcname m0"
    have n1: "node_at (files w1) ?t = Some (if member_is_dir m0 then Dir else File (data m0))"
      using extract_member_Inr(1) [OF e' Cons.prems(2)] .
    show ?thesis
    proof (cases "member_is_dir m0")
      case True
      with n1 have "node_at (files w1) ?t = Some Dir" by simp
      with extractall_kept [OF rest] have "node_at (files w') ?t = Some Dir"
        by (simp add: dirs_kept_def)
      with True m show ?thesis by (simp add: member_node_def)
    next
      case nodir: False
      with n1 have f1: "node_at (files w1) ?t = Some (File (data m0))" by simp
      let ?same = "filter (\<lambda>x. arcname x = arcname m0) ms"
      show ?thesis
      proof (cases "?same = []")
        case True
        then have "\<forall>x \<in> set ms. base @ arcname x \<noteq> ?t" by (auto simp: filter_empty_conv)
        from extractall_frame [OF rest res1 f1 this] True nodir m show ?thesis
          by (simp add: member_node_def)
      next
        case False
        let ?l = "last ?same"
        have l: "?l \<in> set ?same" using False by (rule last_in_set)
        then have "?l \<in> {x \<in> set ms. arcname x = arcname m0}" by (simp only: set_filter)
        then have lm: "?l \<in> set ms" and la: "arcname ?l = arcname m0" by blast+
        from Cons.IH [OF rest res1 lm] la
        have n': "node_at (files w') ?t = Some (member_node ms ?l)" by simp
        from extractall_file [OF rest f1] obtain c' where "node_at (files w') ?t = Some (File c')" ..
        with n' have "member_node ms ?l = File c'" by simp
        then have "\<not> member_is_dir ?l" by (auto simp: member_node_def split: if_splits)
        then have "member_node ms ?l = File (data ?l)" using la by (simp add: member_node_def)
        with n' False nodir m show ?thesis by (simp add: member_node_def)
      qed
    qed
  qed
qed

lemma download_data_not_found:
  assumes "\<not> is_dir w (image_path destination)"
  shows "download_data env source destination remove_source w =
     io_bind (logged (Path_mkdir (image_path destination))
                (path_mkdir env (image_path destination) True True))
       (\<lambda>_. fetch_and_extract env source destination remove_source)
       (w\<lparr>log := log w @
           [(Path_is_dir (image_path destination), Answered False),
            (Print (''[INFO] Did not find '' @ str_path (image_path destination)
                      @ '' directory, creating one...''), Returned)]\<rparr>)"
  using assms
  by (simp add: download_data_def fetch_and_extract_def io_bind_def path_is_dir_def print_def)

lemma keeps_dirs_return: "keeps_dirs (io_return x)"
  by (simp add: keeps_dirs_def io_return_def dirs_kept_refl)

lemma keeps_dirs_bind:
  assumes "keeps_dirs m" and "\<And>x. keeps_dirs (f x)"
  shows "keeps_dirs (io_bind m f)"
  unfolding keeps_dirs_def
proof (intro allI impI)
  fix w r w'
  assume run: "io_bind m f w = (r, w')"
  obtain r1 w1 where m: "m w = (r1, w1)" by (cases "m w")
  with assms(1) have k1: "dirs_kept w w1" by (auto simp: keeps_dirs_def)
  show "dirs_kept w w'"
  proof (cases r1)
    case (Inl e)
    with run m k1 show ?thesis by (simp add: io_bind_def)
  next
    case (Inr x)
    with run m have "f x w1 = (r, w')" by (simp add: io_bind_def)
    with assms(2) have "dirs_kept w1 w'" by (auto simp: keeps_dirs_def)
    with k1 show ?thesis by (rule dirs_kept_trans)
  qed
qed

lemma keeps_dirs_logged:
  assumes "keeps_dirs m"
  shows "keeps_dirs (logged c m)"
  using assms
  by (auto simp: keeps_dirs_def logged_def dirs_kept_log split: prod.splits sum.splits)

lemma keeps_dirs_print: "keeps_dirs (print s)"
  by (simp add: keeps_dirs_def print_def dirs_kept_log dirs_kept_refl)

lemma keeps_dirs_prims:
  "keeps_dirs (path_mkdir env p a b)"
  "keeps_dirs (open_wb env p)"
  "keeps_dirs (requests_get env url)"
  "keeps_dirs (file_write env f bs)"
  "keeps_dirs (zipfile_open env p)"
  "keeps_dirs (extractall env ms p)"
  "keeps_dirs (os_remove env p)"
proof -
  show "keeps_dirs (path_mkdir env p a b)"
    unfolding keeps_dirs_def using path_mkdir_kept by blast
  show "keeps_dirs (open_wb env p)"
    unfolding keeps_dirs_def using open_wb_kept by blast
  show "keeps_dirs (requests_get env url)"
    unfolding keeps_dirs_def using requests_get_same dirs_kept_refl by blast
  show "keeps_dirs (file_write env f bs)"
    unfolding keeps_dirs_def using file_write_kept by blast
  show "keeps_dirs (zipfile_open env p)"
    unfolding keeps_dirs_def using zipfile_open_same dirs_kept_refl by blast
  show "keeps_dirs (extractall env ms p)"
    unfolding keeps_dirs_def using extractall_kept by blast
  show "keeps_dirs (os_remove env p)"
    unfolding keeps_dirs_def using os_remove_kept by blast
qed

lemma keeps_dirs_fetch_and_extract:
  "keeps_dirs (fetch_and_extract env source destination remove_source)"
  unfolding fetch_and_extract_def
  by (simp add: keeps_dirs_bind keeps_dirs_logged keeps_dirs_print keeps_dirs_prims
        keeps_dirs_return)

lemma download_data_found:
  assumes "is_dir w (image_path destination)"
  shows "download_data env source destination remove_source w =
           (Inr (image_path destination),
            w\<lparr>log := log w @
               [(Path_is_dir (image_path destination), Answered True),
                (Print (''[INFO] '' @ str_path (image_path destination)
                          @ '' directory exists, skipping download.''), Returned)]\<rparr>)"
  using assms
  by (simp add: download_data_def io_bind_def io_return_def path_is_dir_def print_def)

lemma fetch_and_extract_get_failed:
  assumes "fetch_and_extract env source destination remove_source w = (Inl e, w')"
      and "fst (last (log w')) = Requests_get source"
  shows "\<exists>c. resolve w' (archive_path source) = Inr c \<and> node_at (files w') c = Some (File [])"
proof -
  obtain r1 w1 where o: "open_wb env (archive_path source) w = (r1, w1)"
    by (cases "open_wb env (archive_path source) w")
  show ?thesis
  proof (cases r1)
    case (Inl e1)
    with assms o show ?thesis
      by (auto simp: fetch_and_extract_def io_bind_def logged_def)
  next
    case (Inr f)
    with o have o': "open_wb env (archive_path source) w = (Inr f, w1)" by simp
    note f = open_wb_Inr [OF o']
    have res: "resolve w1 (archive_path source) = Inr f"
      using open_wb_kept [OF o'] f by (auto intro: resolve_mono)
    have nd: "node_at (files w1) f = Some (File [])"
      using f by (simp add: node_at_Cons)
    show ?thesis
    proof (cases "http_get env (log w1 @ [(Open_wb (archive_path source), Returned)]) source")
      case (Inl e2)
      with assms o' have "w' = w1\<lparr>log := log w1 @ [(Open_wb (archive_path source), Returned),
             (Requests_get source, Raised e2)]\<rparr>"
        by (auto simp: fetch_and_extract_def io_bind_def logged_def requests_get_def)
      with res nd show ?thesis by simp
    next
      case (Inr resp)
      with assms o' show ?thesis
        by (auto simp: fetch_and_extract_def io_bind_def logged_def requests_get_def print_def
              io_return_def split: prod.splits sum.splits if_splits)
    qed
  qed
qed

text \<open>The calls of a successful run after the creation of the directory, one by one.\<close>

lemma fetch_and_extract_steps:
  assumes "fetch_and_extract env source destination remove_source w = (Inr p, w')"
  shows "\<exists>f wo resp wf ms wz we.
     p = image_path destination \<and>
     open_wb env (archive_path source) w = (Inr f, wo) \<and>
     http_get env (log wo @ [(Open_wb (archive_path source), Returned)]) source = Inr resp \<and>
     file_write env f (content resp)
       (wo\<lparr>log := log wo @ [(Open_wb (archive_path source), Returned),
          (Requests_get source, Returned),
          (Print (''[INFO] Downloading '' @ target_file source @ '' from ''
                      @ source @ ''...''), Returned)]\<rparr>) = (Inr (), wf) \<and>
     zipfile_open env (archive_path source)
       (wf\<lparr>log := log wf @ [(File_write f (content resp), Returned)]\<rparr>) = (Inr ms, wz) \<and>
     extractall env ms (image_path destination)
       (wz\<lparr>log := log wz @ [(ZipFile (archive_path source), Returned),
          (Print (''[INFO] Unzipping '' @ target_file source @ '' data...''), Returned)]\<rparr>)
       = (Inr (), we) \<and>
     (if remove_source
      then \<exists>wr. os_remove env (archive_path source)
                  (we\<lparr>log := log we @ [(Zip_extractall (image_path destination), Returned)]\<rparr>)
                  = (Inr (), wr) \<and>
                w' = wr\<lparr>log := log wr @ [(Os_remove (archive_path source), Returned)]\<rparr>
      else w' = we\<lparr>log := log we @ [(Zip_extractall (image_path destination), Returned)]\<rparr>)"
  using assms
  by (auto simp: fetch_and_extract_def io_bind_def logged_def print_def io_return_def
        requests_get_def split: prod.splits sum.splits if_splits)

lemma fetch_and_extract_success:
  assumes run: "fetch_and_extract env source destination remove_source w = (Inr p, w')"
      and base: "resolve w (image_path destination) = Inr base"
  shows "\<exists>f resp ms (we :: world).
     p = image_path destination \<and> cwd w' = cwd w \<and>
     http_get env (log w @ [(Open_wb (archive_path source), Returned)]) source = Inr resp \<and>
     unzip env (content resp) = Inr ms \<and>
     log w' = log w @
       [(Open_wb (archive_path source), Returned),
        (Requests_get source, Returned),
        (Print (''[INFO] Downloading '' @ target_file source @ '' from ''
                  @ source @ ''...''), Returned),
        (File_write f (content resp), Returned),
        (ZipFile (archive_path source), Returned),
        (Print (''[INFO] Unzipping '' @ target_file source @ '' data...''), Returned),
        (Zip_extractall (image_path destination), Returned)]
       @ (if remove_source then [(Os_remove (archive_path source), Returned)] else []) \<and>
     dirs_kept w w' \<and>
     resolve w' (archive_path source) = Inr f \<and> f \<noteq> [] \<and>
     (\<forall>m \<in> set ms. node_at (files we) (base @ arcname m) = Some (member_node ms m)) \<and>
     (\<exists>b. node_at (files we) f = Some (File b)) \<and>
     files w' = (if remove_source then delete_node f (files we) else files we)"
proof -
  let ?ap = "archive_path source" and ?ip = "image_path destination"
  from fetch_and_extract_steps [OF run]
  obtain f wo resp wf ms wz we where
    p: "p = ?ip" and
    o: "open_wb env ?ap w = (Inr f, wo)" and
    g: "http_get env (log wo @ [(Open_wb ?ap, Returned)]) source = Inr resp" and
    wr: "file_write env f (content resp)
       (wo\<lparr>log := log wo @ [(Open_wb ?ap, Returned), (Requests_get source, Returned),
          (Print (''[INFO] Downloading '' @ target_file source @ '' from ''
                      @ source @ ''...''), Returned)]\<rparr>) = (Inr (), wf)" and
    z: "zipfile_open env ?ap
       (wf\<lparr>log := log wf @ [(File_write f (content resp), Returned)]\<rparr>) = (Inr ms, wz)" and
    x: "extractall env ms ?ip
       (wz\<lparr>log := log wz @ [(ZipFile ?ap, Returned),
          (Print (''[INFO] Unzipping '' @ target_file source @ '' data...''), Returned)]\<rparr>)
       = (Inr (), we)" and
    fin: "if remove_source
      then \<exists>wr. os_remove env ?ap
                  (we\<lparr>log := log we @ [(Zip_extractall ?ip, Returned)]\<rparr>) = (Inr (), wr) \<and>
                w' = wr\<lparr>log := log wr @ [(Os_remove ?ap, Returned)]\<rparr>
      else w' = we\<lparr>log := log we @ [(Zip_extractall ?ip, Returned)]\<rparr>"
    by blast
  \<comment> \<open>opening the archive file\<close>
  note of = open_wb_Inr [OF o]
  have ko: "dirs_kept w wo" and lo: "log wo = log w" using open_wb_kept [OF o] by simp_all
  have fo: "node_at (files wo) f = Some (File [])" using of by (simp add: node_at_Cons)
  \<comment> \<open>writing the body\<close>
  let ?w3 = "wo\<lparr>log := log wo @ [(Open_wb ?ap, Returned), (Requests_get source, Returned),
          (Print (''[INFO] Downloading '' @ target_file source @ '' from ''
                      @ source @ ''...''), Returned)]\<rparr>"
  have "node_at (files ?w3) f = Some (File [])" using fo by simp
  from file_write_Inr [OF wr this]
  have wf: "wf = ?w3\<lparr>files := (f, File (content resp)) # files ?w3\<rparr>" by simp
  have kf: "dirs_kept wo wf" and lf: "log wf = log ?w3"
    using file_write_kept [OF wr] by (simp_all add: dirs_kept_def)
  have ff: "node_at (files wf) f = Some (File (content resp))"
    using wf of by (simp add: node_at_Cons)
  \<comment> \<open>reading the archive\<close>
  let ?w4 = "wf\<lparr>log := log wf @ [(File_write f (content resp), Returned)]\<rparr>"
  have wz: "wz = ?w4" using zipfile_open_same [OF z] .
  have k4: "dirs_kept w ?w4"
    using ko kf by (auto simp: dirs_kept_log intro: dirs_kept_trans)
  have r0: "resolve w ?ap = Inr f" using of by simp
  have r4: "resolve ?w4 ?ap = Inr f" using k4 r0 by (rule resolve_mono)
  from zipfile_open_Inr [OF z] r4 ff have u: "unzip env (content resp) = Inr ms" by auto
  \<comment> \<open>extracting\<close>
  let ?w5 = "wz\<lparr>log := log wz @ [(ZipFile ?ap, Returned),
          (Print (''[INFO] Unzipping '' @ target_file source @ '' data...''), Returned)]\<rparr>"
  have k5: "dirs_kept w ?w5" using k4 wz by (simp add: dirs_kept_log)
  have b5: "resolve ?w5 ?ip = Inr base" using k5 base by (rule resolve_mono)
  have f5: "node_at (files ?w5) f = Some (File (content resp))" using wz ff by simp
  have kx: "dirs_kept ?w5 we" and lx: "log we = log ?w5" using extractall_kept [OF x] by simp_all
  have ke: "dirs_kept w we" using k5 kx by (rule dirs_kept_trans)
  have present: "\<forall>m \<in> set ms. node_at (files we) (base @ arcname m) = Some (member_node ms m)"
    using extractall_present [OF x b5] by blast
  from extractall_file [OF x f5] obtain b where fe: "node_at (files we) f = Some (File b)" ..
  have re: "resolve we ?ap = Inr f" using ke r0 by (rule resolve_mono)
  have le: "log we = log w @
       [(Open_wb ?ap, Returned), (Requests_get source, Returned),
        (Print (''[INFO] Downloading '' @ target_file source @ '' from ''
                  @ source @ ''...''), Returned),
        (File_write f (content resp), Returned),
        (ZipFile ?ap, Returned),
        (Print (''[INFO] Unzipping '' @ target_file source @ '' data...''), Returned)]"
    using lx wz lf lo by simp
  have g': "http_get env (log w @ [(Open_wb ?ap, Returned)]) source = Inr resp"
    using g lo by simp
  have ce: "cwd we = cwd w" using ke by (simp add: dirs_kept_def)
  have fe': "\<exists>b. node_at (files we) f = Some (File b)" using fe by blast
  have nn: "f \<noteq> []" using of by simp
  show ?thesis
  proof (cases remove_source)
    case False
    with fin have w': "w' = we\<lparr>log := log we @ [(Zip_extractall ?ip, Returned)]\<rparr>" by simp
    have K: "dirs_kept w w'" using ke w' by (simp add: dirs_kept_log)
    have C: "cwd w' = cwd w" using K by (simp add: dirs_kept_def)
    have R: "resolve w' ?ap = Inr f" using K r0 by (rule resolve_mono)
    have L: "log w' = log w @
       [(Open_wb ?ap, Returned), (Requests_get source, Returned),
        (Print (''[INFO] Downloading '' @ target_file source @ '' from ''
                  @ source @ ''...''), Returned),
        (File_write f (content resp), Returned),
        (ZipFile ?ap, Returned),
        (Print (''[INFO] Unzipping '' @ target_file source @ '' data...''), Returned),
        (Zip_extractall ?ip, Returned)]
       @ (if remove_source then [(Os_remove ?ap, Returned)] else [])"
      using w' le False by simp
    have F: "files w' = (if remove_source then delete_node f (files we) else files we)"
      using w' False by simp
    show ?thesis
      apply (rule exI [of _ f])
      apply (rule exI [of _ resp])
      apply (rule exI [of _ ms])
      apply (rule exI [of _ we])
      apply (intro conjI)
      apply (rule p C g' u L K R nn present fe' F)+
      done
  next
    case True
    let ?w7 = "we\<lparr>log := log we @ [(Zip_extractall ?ip, Returned)]\<rparr>"
    from fin True obtain wr where
      rm: "os_remove env ?ap ?w7 = (Inr (), wr)" and
      w': "w' = wr\<lparr>log := log wr @ [(Os_remove ?ap, Returned)]\<rparr>" by auto
    have kr: "dirs_kept ?w7 wr" and lr: "log wr = log ?w7" using os_remove_kept [OF rm] by simp_all
    have "resolve ?w7 ?ap = Inr f" using re by simp
    with os_remove_Inr [OF rm]
    have wrf: "wr = ?w7\<lparr>files := delete_node f (files ?w7)\<rparr>" by auto
    have "dirs_kept we wr" using kr by (simp add: dirs_kept_def)
    with ke have "dirs_kept w wr" by (rule dirs_kept_trans)
    then have K: "dirs_kept w w'" using w' by (simp add: dirs_kept_log)
    have C: "cwd w' = cwd w" using K by (simp add: dirs_kept_def)
    have R: "resolve w' ?ap = Inr f" using K r0 by (rule resolve_mono)
    have L: "log w' = log w @
       [(Open_wb ?ap, Returned), (Requests_get source, Returned),
        (Print (''[INFO] Downloading '' @ target_file source @ '' from ''
                  @ source @ ''...''), Returned),
        (File_write f (content resp), Returned),
        (ZipFile ?ap, Returned),
        (Print (''[INFO] Unzipping '' @ target_file source @ '' data...''), Returned),
        (Zip_extractall ?ip, Returned)]
       @ (if remove_source then [(Os_remove ?ap, Returned)] else [])"
      using w' lr le True by simp
    have F: "files w' = (if remove_source then delete_node f (files we) else files we)"
      using w' wrf True by simp
    show ?thesis
      apply (rule exI [of _ f])
      apply (rule exI [of _ resp])
      apply (rule exI [of _ ms])
      apply (rule exI [of _ we])
      apply (intro conjI)
      apply (rule p C g' u L K R nn present fe' F)+
      done
  qed
qed

lemma download_data_mkdir_done:
  assumes nf: "\<not> is_dir w (image_path destination)"
      and run: "download_data env source destination remove_source w = (Inr p, w')"
  shows "\<exists>wm. dirs_kept w wm \<and> is_dir wm (image_path destination) \<and>
          log wm = log w @
             [(Path_is_dir (image_path destination), Answered False),
              (Print (''[INFO] Did not find '' @ str_path (image_path destination)
                        @ '' directory, creating one...''), Returned),
              (Path_mkdir (image_path destination), Returned)] \<and>
          fetch_and_extract env source destination remove_source wm = (Inr p, w') \<and>
          (\<forall>r2. download_data env source destination r2 w =
                  fetch_and_extract env source destination r2 wm)"
proof -
  let ?ip = "image_path destination"
  let ?w0 = "w\<lparr>log := log w @
           [(Path_is_dir ?ip, Answered False),
            (Print (''[INFO] Did not find '' @ str_path ?ip
                      @ '' directory, creating one...''), Returned)]\<rparr>"
  obtain rm wm where m: "path_mkdir env ?ip True True ?w0 = (rm, wm)"
    by (cases "path_mkdir env ?ip True True ?w0")
  have dec: "io_bind (logged (Path_mkdir ?ip) (path_mkdir env ?ip True True))
       (\<lambda>_. fetch_and_extract env source destination remove_source) ?w0 = (Inr p, w')"
    using download_data_not_found [OF nf, of env source remove_source] run by simp
  from dec m obtain u where rm: "rm = Inr u"
    by (cases rm) (auto simp: io_bind_def logged_def)
  let ?w1 = "wm\<lparr>log := log wm @ [(Path_mkdir ?ip, Returned)]\<rparr>"
  from dec m rm
  have rest: "fetch_and_extract env source destination remove_source ?w1 = (Inr p, w')"
    by (simp add: io_bind_def logged_def)
  have d: "is_dir ?w1 ?ip" using path_mkdir_Inr m rm by simp
  have "dirs_kept ?w0 wm" and l: "log wm = log ?w0" using path_mkdir_kept [OF m] by simp_all
  then have k: "dirs_kept w ?w1" by (simp add: dirs_kept_def)
  have l1: "log ?w1 = log w @
             [(Path_is_dir ?ip, Answered False),
              (Print (''[INFO] Did not find '' @ str_path ?ip
                        @ '' directory, creating one...''), Returned),
              (Path_mkdir ?ip, Returned)]"
    using l by simp
  have same: "\<forall>r2. download_data env source destination r2 w =
                  fetch_and_extract env source destination r2 ?w1"
    using download_data_not_found [OF nf, of env source] m rm
    by (simp add: io_bind_def logged_def)
  show ?thesis
    apply (rule exI [of _ ?w1])
    apply (intro conjI)
    apply (rule k d l1 rest same)+
    done
qed

text \<open>
  With \<open>remove_source\<close> the run is the run without it, followed by the removal.
\<close>

lemma fetch_and_extract_remove:
  "fetch_and_extract env source destination True w =
     io_bind (fetch_and_extract env source destination False)
       (\<lambda>_. io_bind (logged (Os_remove (archive_path source))
                       (os_remove env (archive_path source)))
               (\<lambda>_. io_return (image_path destination))) w"
  by (auto simp: fetch_and_extract_def io_bind_def io_return_def split: prod.splits sum.splits)

lemma fetch_and_extract_kept:
  assumes run: "fetch_and_extract env source destination remove_source w = (Inr p, w')"
      and base: "resolve w (image_path destination) = Inr base"
      and keep: "\<not> remove_source"
  shows "\<exists>f es. p = image_path destination \<and>
           resolve w' (archive_path source) = Inr f \<and>
           (\<exists>b. node_at (files w') f = Some (File b)) \<and>
           log w' = log w @ es \<and>
           (\<forall>x. (Os_remove (archive_path source), x) \<notin> set es)"
proof -
  let ?ip = "image_path destination" and ?ap = "archive_path source"
  from fetch_and_extract_success [OF run base] obtain f and resp :: response and we :: world where
    p: "p = ?ip" and
    l: "log w' = log w @
       [(Open_wb ?ap, Returned), (Requests_get source, Returned),
        (Print (''[INFO] Downloading '' @ target_file source @ '' from ''
                  @ source @ ''...''), Returned),
        (File_write f (content resp), Returned),
        (ZipFile ?ap, Returned),
        (Print (''[INFO] Unzipping '' @ target_file source @ '' data...''), Returned),
        (Zip_extractall ?ip, Returned)]
       @ (if remove_source then [(Os_remove ?ap, Returned)] else [])" and
    rf: "resolve w' ?ap = Inr f" and
    fe: "\<exists>b. node_at (files we) f = Some (File b)" and
    fw: "files w' = (if remove_source then delete_node f (files we) else files we)"
    by blast
  let ?es = "[(Open_wb ?ap, Returned), (Requests_get source, Returned),
        (Print (''[INFO] Downloading '' @ target_file source @ '' from ''
                  @ source @ ''...''), Returned),
        (File_write f (content resp), Returned),
        (ZipFile ?ap, Returned),
        (Print (''[INFO] Unzipping '' @ target_file source @ '' data...''), Returned),
        (Zip_extractall ?ip, Returned)]"
  have L: "log w' = log w @ ?es" using l keep by simp
  have E: "\<forall>x. (Os_remove ?ap, x) \<notin> set ?es" by simp
  have F: "\<exists>b. node_at (files w') f = Some (File b)" using fe fw keep by simp
  show ?thesis
    apply (rule exI [of _ f])
    apply (rule exI [of _ ?es])
    apply (intro conjI)
    apply (rule p rf F L E)+
    done
qed


section \<open>Properties of the image folder and of the loader\<close>

lemma set_scandir_dirs:
  "{n \<in> set (scandir fs c). node_at fs (c @ [n]) = Some Dir}
     = {n. node_at fs (c @ [n]) = Some Dir}"
proof (intro equalityI subsetI)
  fix n assume "n \<in> {n. node_at fs (c @ [n]) = Some Dir}"
  then have d: "node_at fs (c @ [n]) = Some Dir" by simp
  then have "map_of fs (c @ [n]) = Some Dir" by (simp add: node_at_def)
  then have "(c @ [n], Dir) \<in> set fs" by (rule map_of_SomeD)
  then have "n \<in> set (scandir fs c)"
    using d by (force simp: scandir_def)
  with d show "n \<in> {n \<in> set (scandir fs c). node_at fs (c @ [n]) = Some Dir}" by simp
qed simp

lemma find_classes_Inr:
  assumes "find_classes w directory = Inr cs"
  shows "\<exists>c. resolve w (Path directory) = Inr c \<and> sorted cs \<and> distinct cs \<and> cs \<noteq> [] \<and>
             set cs = {n. node_at (files w) (c @ [n]) = Some Dir}"
proof -
  from assms obtain c where
    c: "resolve w (Path directory) = Inr c" and
    cs: "cs = sort (filter (\<lambda>n. node_at (files w) (c @ [n]) = Some Dir) (scandir (files w) c))" and
    ne: "cs \<noteq> []"
    by (auto simp: find_classes_def Let_def split: sum.splits option.splits node.splits if_splits)
  have "sorted cs" using cs by simp
  moreover have "distinct cs" using cs by (simp add: scandir_def)
  moreover have "set cs = {n. node_at (files w) (c @ [n]) = Some Dir}"
    using cs set_scandir_dirs [of "files w" c] by simp
  ultimately show ?thesis using c ne by blast
qed

lemma ImageFolder_Inr:
  assumes "ImageFolder w root_dir tf = Inr ds"
  shows "find_classes w root_dir = Inr (classes ds) \<and> transform ds = tf \<and> samples ds \<noteq> []"
proof -
  from assms obtain cs c where
    f: "find_classes w root_dir = Inr cs" and
    c: "resolve w (Path root_dir) = Inr c" and
    ne: "\<not> list_ex (\<lambda>cls. class_samples (files w) c cls = []) cs" and
    ds: "ds = \<lparr>ds_root = root_dir, classes = cs,
              samples = concat (map (\<lambda>(i, cls). map (\<lambda>k. (k, i))
                                    (class_samples (files w) c cls)) (enumerate 0 cs)),
              transform = tf\<rparr>"
    by (auto simp: ImageFolder_def sum_bind_def split: sum.splits if_splits)
  from find_classes_Inr [OF f] have "cs \<noteq> []" by blast
  then obtain x xs where xs: "cs = x # xs" by (cases cs) auto
  with ne have "class_samples (files w) c x \<noteq> []" by simp
  then have "samples ds \<noteq> []" using ds xs by simp
  with f ds show ?thesis by simp
qed

lemma DataLoader_Inr:
  assumes "DataLoader ds bs shuf nw pin = Inr dl"
  shows "dataset dl = ds \<and> batch_size dl = bs \<and> shuffle dl = shuf \<and>
         nw = Some (num_workers dl) \<and> pin_memory dl = pin \<and> 0 < bs \<and> 0 \<le> num_workers dl"
  using assms by (auto simp: DataLoader_def split: option.splits if_splits)

text \<open>The library calls of a call of \<open>create_dataloaders\<close> that returns.\<close>

lemma create_dataloaders_Inr:
  assumes "create_dataloaders module w train_dir test_dir train_transform test_transform
             bs nw = Inr (tr, te, class_names)"
  shows "\<exists>train_data test_data.
           ImageFolder w train_dir train_transform = Inr train_data \<and>
           ImageFolder w test_dir test_transform = Inr test_data \<and>
           DataLoader train_data bs True
             (case nw of Omitted \<Rightarrow> NUM_WORKERS module | Given n \<Rightarrow> n) True = Inr tr \<and>
           DataLoader test_data bs False
             (case nw of Omitted \<Rightarrow> NUM_WORKERS module | Given n \<Rightarrow> n) True = Inr te \<and>
           class_names = classes train_data"
  using assms
  by (auto simp: create_dataloaders_def sum_bind_def Let_def split: sum.splits)


section \<open>Properties of the model factory\<close>

text \<open>The library calls of a call of \<open>create_model_baseline_vit\<close> that returns.\<close>

lemma create_model_Inr:
  assumes "create_model_baseline_vit tenv out_feats dev st = (Inr m, st')"
  shows "\<exists>v g1 w b.
           pretrained tenv (rng st) = (Inr v, g1) \<and>
           0 \<le> out_feats \<and>
           init_linear tenv (seeded tenv) 768 out_feats = ((w, b), rng st') \<and>
           backbone m = map (\<lambda>(n, p). (n, set_requires_grad False p))
             (case dev of None \<Rightarrow> backbone v
                        | Some d \<Rightarrow> map (\<lambda>(n, p). (n, set_device d p)) (backbone v)) \<and>
           heads m = Linear 768 out_feats
                       (Parameter w True (target_device tenv dev))
                       (Parameter b True (target_device tenv dev)) \<and>
           tlog st' = tlog st @
             [(Vit_b_16, Returned), (To dev, Returned), (Set_seeds, Returned),
              (Linear_ctor 768 out_feats, Returned), (To dev, Returned)]"
  using assms
  by (auto simp: create_model_baseline_vit_def io_bind_def io_return_def tlogged_def
        vit_b_16_def vit_to_def set_seeds_def nn_Linear_def module_to_def Let_def
        freeze_parameters_def target_device_def set_device_def
        split: prod.splits sum.splits option.splits if_splits)


section \<open>Propagation of exceptions\<close>


lemma propagates_return: "propagates lg (io_return x)"
  by (simp add: propagates_def io_return_def no_raise_def)

lemma propagates_bind:
  assumes "propagates lg m" and "\<And>x. propagates lg (f x)"
  shows "propagates lg (io_bind m f)"
  unfolding propagates_def
proof (intro allI impI)
  fix w r w'
  assume run: "io_bind m f w = (r, w')"
  obtain r1 w1 where m: "m w = (r1, w1)" by (cases "m w")
  from assms(1) m obtain es1 where
    l1: "lg w1 = lg w @ es1" and b1: "no_raise (butlast es1)" and
    c1: "case r1 of Inl e \<Rightarrow> es1 \<noteq> [] \<and> snd (last es1) = Raised e | Inr _ \<Rightarrow> no_raise es1"
    unfolding propagates_def by blast
  show "\<exists>es. lg w' = lg w @ es \<and> no_raise (butlast es) \<and>
          (case r of Inl e \<Rightarrow> es \<noteq> [] \<and> snd (last es) = Raised e | Inr _ \<Rightarrow> no_raise es)"
  proof (cases r1)
    case (Inl e)
    with run m have "r = Inl e" "w' = w1" by (simp_all add: io_bind_def)
    with l1 b1 c1 Inl show ?thesis by auto
  next
    case (Inr x)
    with run m have fx: "f x w1 = (r, w')" by (simp add: io_bind_def)
    from c1 Inr have n1: "no_raise es1" by simp
    from assms(2) [of x] fx obtain es2 where
      l2: "lg w' = lg w1 @ es2" and b2: "no_raise (butlast es2)" and
      c2: "case r of Inl e \<Rightarrow> es2 \<noteq> [] \<and> snd (last es2) = Raised e | Inr _ \<Rightarrow> no_raise es2"
      unfolding propagates_def by blast
    have l: "lg w' = lg w @ (es1 @ es2)" using l1 l2 by simp
    have b: "no_raise (butlast (es1 @ es2))"
      using n1 b1 b2 by (auto simp: no_raise_def butlast_append)
    have c: "case r of Inl e \<Rightarrow> es1 @ es2 \<noteq> [] \<and> snd (last (es1 @ es2)) = Raised e
                     | Inr _ \<Rightarrow> no_raise (es1 @ es2)"
      using c2 n1 by (cases r) (auto simp: no_raise_def)
    from l b c show ?thesis by blast
  qed
qed

lemma propagates_logged:
  assumes "keeps_log log m"
  shows "propagates log (logged c m)"
  unfolding propagates_def
proof (intro allI impI)
  fix w r w'
  assume run: "logged c m w = (r, w')"
  obtain r1 w1 where m: "m w = (r1, w1)" by (cases "m w")
  with assms have l: "log w1 = log w" by (auto simp: keeps_log_def)
  show "\<exists>es. log w' = log w @ es \<and> no_raise (butlast es) \<and>
          (case r of Inl e \<Rightarrow> es \<noteq> [] \<and> snd (last es) = Raised e | Inr _ \<Rightarrow> no_raise es)"
    using run m l by (cases r1) (auto simp: logged_def no_raise_def)
qed

lemma propagates_tlogged:
  assumes "keeps_log tlog m"
  shows "propagates tlog (tlogged c m)"
  unfolding propagates_def
proof (intro allI impI)
  fix w r w'
  assume run: "tlogged c m w = (r, w')"
  obtain r1 w1 where m: "m w = (r1, w1)" by (cases "m w")
  with assms have l: "tlog w1 = tlog w" by (auto simp: keeps_log_def)
  show "\<exists>es. tlog w' = tlog w @ es \<and> no_raise (butlast es) \<and>
          (case r of Inl e \<Rightarrow> es \<noteq> [] \<and> snd (last es) = Raised e | Inr _ \<Rightarrow> no_raise es)"
    using run m l by (cases r1) (auto simp: tlogged_def no_raise_def)
qed

lemma propagates_print: "propagates log (print s)"
  by (simp add: propagates_def print_def no_raise_def)

lemma propagates_path_is_dir: "propagates log (path_is_dir p)"
  by (simp add: propagates_def path_is_dir_def no_raise_def)

lemma keeps_log_prims:
  "keeps_log log (path_mkdir env p a b)"
  "keeps_log log (open_wb env p)"
  "keeps_log log (requests_get env url)"
  "keeps_log log (file_write env f bs)"
  "keeps_log log (zipfile_open env p)"
  "keeps_log log (extractall env ms p)"
  "keeps_log log (os_remove env p)"
proof -
  show "keeps_log log (path_mkdir env p a b)"
    unfolding keeps_log_def using path_mkdir_kept by blast
  show "keeps_log log (open_wb env p)"
    unfolding keeps_log_def using open_wb_kept by blast
  show "keeps_log log (requests_get env url)"
    unfolding keeps_log_def using requests_get_same by blast
  show "keeps_log log (file_write env f bs)"
    unfolding keeps_log_def using file_write_kept by blast
  show "keeps_log log (zipfile_open env p)"
    unfolding keeps_log_def using zipfile_open_same by blast
  show "keeps_log log (extractall env ms p)"
    unfolding keeps_log_def using extractall_kept by blast
  show "keeps_log log (os_remove env p)"
    unfolding keeps_log_def using os_remove_kept by blast
qed

lemma propagates_download_data:
  "propagates log (download_data env source destination remove_source)"
  unfolding download_data_def
  by (simp add: propagates_bind propagates_return propagates_logged propagates_print
        propagates_path_is_dir keeps_log_prims)

lemma keeps_log_torch:
  "keeps_log tlog (vit_b_16 tenv)"
  "keeps_log tlog (vit_to tenv dev v)"
  "keeps_log tlog (set_seeds tenv)"
  "keeps_log tlog (nn_Linear tenv i out)"
  "keeps_log tlog (module_to tenv dev md)"
  by (auto simp: keeps_log_def vit_b_16_def vit_to_def set_seeds_def nn_Linear_def
        module_to_def split: prod.splits option.splits if_splits)

lemma propagates_create_model:
  "propagates tlog (create_model_baseline_vit tenv out_feats dev)"
  unfolding create_model_baseline_vit_def Let_def
  by (simp add: propagates_bind propagates_return propagates_tlogged keeps_log_torch)

text \<open>What a propagating computation means for the entries that it adds to the log.\<close>

lemma propagatesD:
  assumes "propagates lg m" and "m w = (r, w')"
  shows "\<exists>es. lg w' = lg w @ es \<and>
           (\<forall>c e. (c, Raised e) \<in> set es \<longrightarrow> r = Inl e \<and> last es = (c, Raised e)) \<and>
           (\<forall>e. r = Inl e \<longrightarrow> es \<noteq> [] \<and> snd (last es) = Raised e)"
proof -
  from assms obtain es where
    l: "lg w' = lg w @ es" and b: "no_raise (butlast es)" and
    c: "case r of Inl e \<Rightarrow> es \<noteq> [] \<and> snd (last es) = Raised e | Inr _ \<Rightarrow> no_raise es"
    unfolding propagates_def by blast
  have raised: "r = Inl e \<and> last es = (c', Raised e)" if "(c', Raised e) \<in> set es" for c' e
  proof -
    from that have ne: "es \<noteq> []" by auto
    then have es: "es = butlast es @ [last es]" by simp
    have "(c', Raised e) \<notin> set (butlast es)" using b by (force simp: no_raise_def)
    with that es have la: "last es = (c', Raised e)"
      by (metis Un_iff empty_iff empty_set set_ConsD set_append)
    show ?thesis
    proof (cases r)
      case (Inl e')
      with c la show ?thesis by simp
    next
      case (Inr x)
      with c that show ?thesis by (force simp: no_raise_def)
    qed
  qed
  have err: "es \<noteq> [] \<and> snd (last es) = Raised e" if "r = Inl e" for e
    using c that by simp
  from l raised err show ?thesis by blast
qed

lemma create_dataloaders_Inl:
  "create_dataloaders module w train_dir test_dir train_transform test_transform bs nw = Inl e
   \<longleftrightarrow>
   (ImageFolder w train_dir train_transform = Inl e \<or>
    (\<exists>a. ImageFolder w train_dir train_transform = Inr a \<and>
       (ImageFolder w test_dir test_transform = Inl e \<or>
        (\<exists>b. ImageFolder w test_dir test_transform = Inr b \<and>
           (DataLoader a bs True
              (case nw of Omitted \<Rightarrow> NUM_WORKERS module | Given n \<Rightarrow> n) True = Inl e \<or>
            (\<exists>tl. DataLoader a bs True
                 (case nw of Omitted \<Rightarrow> NUM_WORKERS module | Given n \<Rightarrow> n) True = Inr tl \<and>
               DataLoader b bs False
                 (case nw of Omitted \<Rightarrow> NUM_WORKERS module | Given n \<Rightarrow> n) True = Inl e))))))"
  by (auto simp: create_dataloaders_def sum_bind_def Let_def split: sum.splits)

lemma create_model_calls:
  assumes "create_model_baseline_vit tenv out_feats dev st = (r, st')"
  shows "\<exists>es. tlog st' = tlog st @ es \<and>
           (\<forall>v g. pretrained tenv (rng st) = (Inr v, g) \<longrightarrow> (\<exists>x. (To dev, x) \<in> set es)) \<and>
           (\<forall>v g. pretrained tenv (rng st) = (Inr v, g) \<and>
                  (\<forall>d. dev = Some d \<longrightarrow> to_fault tenv d = None) \<longrightarrow>
                  (\<exists>x. (Linear_ctor 768 out_feats, x) \<in> set es))"
  using assms
  by (auto simp: create_model_baseline_vit_def io_bind_def io_return_def tlogged_def
        vit_b_16_def vit_to_def set_seeds_def nn_Linear_def module_to_def Let_def
        split: prod.splits sum.splits option.splits if_splits)


section \<open>\<open>download_data\<close>: the skip path\<close>

text \<open>
  Claim C1. When \<open>Path("data/") / destination\<close> is a directory, \<open>download_data\<close> returns
  that path, and all it does is the test \<open>is_dir\<close> and one \<open>print\<close>: the files are as
  before and the log gains no request, no file creation, no extraction and no deletion.
  The equation holds for every environment, source and \<open>remove_source\<close>: nothing but the
  existence of the directory is tested.
\<close>

theorem download_data_skips_existing:
  assumes "is_dir w (image_path destination)"
  shows "download_data env source destination remove_source w =
           (Inr (image_path destination),
            w\<lparr>log := log w @
               [(Path_is_dir (image_path destination), Answered True),
                (Print (''[INFO] '' @ str_path (image_path destination)
                          @ '' directory exists, skipping download.''), Returned)]\<rparr>)"
  using assms by (rule download_data_found)

theorem download_data_skips_existing_witness:
  "is_dir downloaded_world (image_path ''pizza_steak_sushi'') \<and>
   download_data example_env example_url ''pizza_steak_sushi'' True downloaded_world =
     (Inr (PurePath '''' [''data'', ''pizza_steak_sushi'']),
      downloaded_world\<lparr>log :=
        [(Path_is_dir (PurePath '''' [''data'', ''pizza_steak_sushi'']), Answered True),
         (Print ''[INFO] data/pizza_steak_sushi directory exists, skipping download.'',
          Returned)]\<rparr>)"
proof -
  have h: "is_dir downloaded_world (image_path ''pizza_steak_sushi'')"
    by code_simp
  have p: "image_path ''pizza_steak_sushi'' = PurePath '''' [''data'', ''pizza_steak_sushi'']"
    by code_simp
  have s: "str_path (PurePath '''' [''data'', ''pizza_steak_sushi''])
             = ''data/pizza_steak_sushi''"
    by code_simp
  show ?thesis
    using h download_data_skips_existing [OF h, of example_env example_url True]
    by (simp add: p s downloaded_world_def)
qed


section \<open>\<open>download_data\<close>: download and extraction\<close>

text \<open>
  Claim C2, amended. When \<open>Path("data/") / destination\<close> is not a directory and the run
  returns, it returns that path, and the log shows what was done, in this order: the
  directory was created (with its parents), the archive file \<open>data/<name of source>\<close> was
  opened for writing, the source was requested, the whole body of the response was
  written to the archive file, the archive was opened and extracted into the directory,
  and the archive file was removed exactly when \<open>remove_source\<close> is set. Afterwards the
  directory exists; the archive file does not exist when \<open>remove_source\<close> is set and is a
  regular file otherwise; and every member of the archive is at its place below the
  directory, except that with \<open>remove_source\<close> a member whose place is the archive file's
  own path has been removed with it.
\<close>

theorem download_data_fresh:
  assumes nf: "\<not> is_dir w (image_path destination)"
      and run: "download_data env source destination remove_source w = (Inr p, w')"
  shows "\<exists>f resp ms base.
     p = image_path destination \<and>
     http_get env (log w @
        [(Path_is_dir (image_path destination), Answered False),
         (Print (''[INFO] Did not find '' @ str_path (image_path destination)
                   @ '' directory, creating one...''), Returned),
         (Path_mkdir (image_path destination), Returned),
         (Open_wb (archive_path source), Returned)]) source = Inr resp \<and>
     unzip env (content resp) = Inr ms \<and>
     log w' = log w @
       [(Path_is_dir (image_path destination), Answered False),
        (Print (''[INFO] Did not find '' @ str_path (image_path destination)
                  @ '' directory, creating one...''), Returned),
        (Path_mkdir (image_path destination), Returned),
        (Open_wb (archive_path source), Returned),
        (Requests_get source, Returned),
        (Print (''[INFO] Downloading '' @ target_file source @ '' from ''
                  @ source @ ''...''), Returned),
        (File_write f (content resp), Returned),
        (ZipFile (archive_path source), Returned),
        (Print (''[INFO] Unzipping '' @ target_file source @ '' data...''), Returned),
        (Zip_extractall (image_path destination), Returned)]
       @ (if remove_source then [(Os_remove (archive_path source), Returned)] else []) \<and>
     is_dir w' (image_path destination) \<and>
     resolve w' (image_path destination) = Inr base \<and>
     resolve w' (archive_path source) = Inr f \<and>
     (if remove_source then node_at (files w') f = None
      else (\<exists>b. node_at (files w') f = Some (File b))) \<and>
     (\<forall>m \<in> set ms.
        (remove_source \<and> base @ arcname m = f) \<or>
        node_at (files w') (base @ arcname m) = Some (member_node ms m))"
proof -
  let ?ip = "image_path destination" and ?ap = "archive_path source"
  from download_data_mkdir_done [OF nf run] obtain wm where
    km: "dirs_kept w wm" and dm: "is_dir wm ?ip" and
    lm: "log wm = log w @
             [(Path_is_dir ?ip, Answered False),
              (Print (''[INFO] Did not find '' @ str_path ?ip
                        @ '' directory, creating one...''), Returned),
              (Path_mkdir ?ip, Returned)]" and
    rest: "fetch_and_extract env source destination remove_source wm = (Inr p, w')"
    by blast
  from dm obtain base where bm: "resolve wm ?ip = Inr base"
    by (auto simp: is_dir_def split: sum.splits)
  from fetch_and_extract_success [OF rest bm] obtain f resp ms and we :: world where
    p: "p = ?ip" and
    g: "http_get env (log wm @ [(Open_wb ?ap, Returned)]) source = Inr resp" and
    u: "unzip env (content resp) = Inr ms" and
    l: "log w' = log wm @
       [(Open_wb ?ap, Returned), (Requests_get source, Returned),
        (Print (''[INFO] Downloading '' @ target_file source @ '' from ''
                  @ source @ ''...''), Returned),
        (File_write f (content resp), Returned),
        (ZipFile ?ap, Returned),
        (Print (''[INFO] Unzipping '' @ target_file source @ '' data...''), Returned),
        (Zip_extractall ?ip, Returned)]
       @ (if remove_source then [(Os_remove ?ap, Returned)] else [])" and
    k: "dirs_kept wm w'" and
    rf: "resolve w' ?ap = Inr f" and nn: "f \<noteq> []" and
    present: "\<forall>m \<in> set ms. node_at (files we) (base @ arcname m) = Some (member_node ms m)" and
    fe: "\<exists>b. node_at (files we) f = Some (File b)" and
    fw: "files w' = (if remove_source then delete_node f (files we) else files we)"
    by blast
  have G: "http_get env (log w @
        [(Path_is_dir ?ip, Answered False),
         (Print (''[INFO] Did not find '' @ str_path ?ip
                   @ '' directory, creating one...''), Returned),
         (Path_mkdir ?ip, Returned),
         (Open_wb ?ap, Returned)]) source = Inr resp"
    using g lm by simp
  have L: "log w' = log w @
       [(Path_is_dir ?ip, Answered False),
        (Print (''[INFO] Did not find '' @ str_path ?ip
                  @ '' directory, creating one...''), Returned),
        (Path_mkdir ?ip, Returned),
        (Open_wb ?ap, Returned),
        (Requests_get source, Returned),
        (Print (''[INFO] Downloading '' @ target_file source @ '' from ''
                  @ source @ ''...''), Returned),
        (File_write f (content resp), Returned),
        (ZipFile ?ap, Returned),
        (Print (''[INFO] Unzipping '' @ target_file source @ '' data...''), Returned),
        (Zip_extractall ?ip, Returned)]
       @ (if remove_source then [(Os_remove ?ap, Returned)] else [])"
    using l lm by simp
  have D: "is_dir w' ?ip" using k dm by (rule is_dir_mono)
  have B: "resolve w' ?ip = Inr base" using k bm by (rule resolve_mono)
  have A: "if remove_source then node_at (files w') f = None
      else (\<exists>b. node_at (files w') f = Some (File b))"
    using fw fe nn by (simp add: node_at_delete)
  have C: "\<forall>m \<in> set ms.
        (remove_source \<and> base @ arcname m = f) \<or>
        node_at (files w') (base @ arcname m) = Some (member_node ms m)"
  proof
    fix m assume "m \<in> set ms"
    with present have "node_at (files we) (base @ arcname m) = Some (member_node ms m)" by blast
    then show "(remove_source \<and> base @ arcname m = f) \<or>
        node_at (files w') (base @ arcname m) = Some (member_node ms m)"
      using fw by (auto simp: node_at_delete)
  qed
  show ?thesis
    apply (rule exI [of _ f])
    apply (rule exI [of _ resp])
    apply (rule exI [of _ ms])
    apply (rule exI [of _ base])
    apply (intro conjI)
    apply (rule p G u L D B rf A C)+
    done
qed

theorem download_data_fresh_witness:
  "\<not> is_dir empty_world (image_path ''pizza_steak_sushi'') \<and>
   download_data example_env example_url ''pizza_steak_sushi'' True empty_world =
     (Inr (image_path ''pizza_steak_sushi''), fresh_world) \<and>
   is_dir fresh_world (image_path ''pizza_steak_sushi'') \<and>
   resolve fresh_world (archive_path example_url) =
     Inr [''home'', ''data'', ''pizza_steak_sushi.zip''] \<and>
   node_at (files fresh_world) [''home'', ''data'', ''pizza_steak_sushi.zip''] = None \<and>
   node_at (files fresh_world)
     [''home'', ''data'', ''pizza_steak_sushi'', ''train'', ''pizza'', ''1.jpg'']
     = Some (File [1])"
proof -
  have nf: "\<not> is_dir empty_world (image_path ''pizza_steak_sushi'')"
    by code_simp
  have run: "download_data example_env example_url ''pizza_steak_sushi'' True empty_world =
     (Inr (image_path ''pizza_steak_sushi''), fresh_world)"
    by code_simp
  from download_data_fresh [OF nf run]
  have d: "is_dir fresh_world (image_path ''pizza_steak_sushi'')" by blast
  have r: "resolve fresh_world (archive_path example_url) =
     Inr [''home'', ''data'', ''pizza_steak_sushi.zip'']"
    by code_simp
  have a: "node_at (files fresh_world) [''home'', ''data'', ''pizza_steak_sushi.zip''] = None"
    by code_simp
  have c: "node_at (files fresh_world)
     [''home'', ''data'', ''pizza_steak_sushi'', ''train'', ''pizza'', ''1.jpg'']
     = Some (File [1])"
    by code_simp
  from nf run d r a c show ?thesis by blast
qed

theorem download_data_fresh_counterexample:
  "\<not> is_dir empty_world (image_path ''.'') \<and>
   download_data collision_env collision_url ''.'' True empty_world =
     (Inr (image_path ''.''), collided_world) \<and>
   unzip collision_env [80, 75] = Inr [collision_member] \<and>
   resolve collided_world (image_path ''.'') = Inr [''home'', ''data''] \<and>
   node_at (files collided_world) ([''home'', ''data''] @ arcname collision_member) = None"
proof -
  have nf: "\<not> is_dir empty_world (image_path ''.'')"
    by code_simp
  have run: "download_data collision_env collision_url ''.'' True empty_world =
     (Inr (image_path ''.''), collided_world)"
    by code_simp
  have u: "unzip collision_env [80, 75] = Inr [collision_member]"
    by code_simp
  have r: "resolve collided_world (image_path ''.'') = Inr [''home'', ''data'']"
    by code_simp
  have n: "node_at (files collided_world) ([''home'', ''data''] @ arcname collision_member) = None"
    by code_simp
  from nf run u r n show ?thesis by blast
qed


section \<open>\<open>download_data\<close>: no rollback\<close>

text \<open>
  Claim C3. When a run of \<open>download_data\<close> raises and the call that raised is not the
  creation of the directory (so the failure is in the download, the extraction or the
  removal), the directory \<open>Path("data/") / destination\<close> exists afterwards, and any later
  call with that destination, whatever its source, its \<open>remove_source\<close> and the
  environment, takes the skip path: it tests the directory, prints and returns, and
  downloads nothing. When the call that raised is the request, the archive file is left
  behind empty.
\<close>

theorem download_data_no_rollback:
  assumes run: "download_data env source destination remove_source w = (Inl e, w')"
      and later: "fst (last (log w')) \<noteq> Path_mkdir (image_path destination)"
  shows "is_dir w' (image_path destination) \<and>
         download_data env' source' destination remove_source' w' =
           (Inr (image_path destination),
            w'\<lparr>log := log w' @
               [(Path_is_dir (image_path destination), Answered True),
                (Print (''[INFO] '' @ str_path (image_path destination)
                          @ '' directory exists, skipping download.''), Returned)]\<rparr>) \<and>
         (fst (last (log w')) = Requests_get source \<longrightarrow>
            (\<exists>c. resolve w' (archive_path source) = Inr c \<and>
                 node_at (files w') c = Some (File [])))"
proof -
  let ?ip = "image_path destination"
  let ?w0 = "w\<lparr>log := log w @
           [(Path_is_dir ?ip, Answered False),
            (Print (''[INFO] Did not find '' @ str_path ?ip
                      @ '' directory, creating one...''), Returned)]\<rparr>"
  have nf: "\<not> is_dir w ?ip"
  proof
    assume "is_dir w ?ip"
    from download_data_found [OF this, of env source remove_source] run show False by simp
  qed
  obtain rm wm where m: "path_mkdir env ?ip True True ?w0 = (rm, wm)"
    by (cases "path_mkdir env ?ip True True ?w0")
  have dec: "io_bind (logged (Path_mkdir ?ip) (path_mkdir env ?ip True True))
       (\<lambda>_. fetch_and_extract env source destination remove_source) ?w0 = (Inl e, w')"
    using download_data_not_found [OF nf, of env source remove_source] run by simp
  show ?thesis
  proof (cases rm)
    case (Inl e1)
    with dec m have "w' = wm\<lparr>log := log wm @ [(Path_mkdir ?ip, Raised e1)]\<rparr>"
      by (auto simp: io_bind_def logged_def)
    with later show ?thesis by simp
  next
    case (Inr u)
    with m have d: "is_dir wm ?ip" by (auto intro: path_mkdir_Inr)
    let ?w1 = "wm\<lparr>log := log wm @ [(Path_mkdir ?ip, Returned)]\<rparr>"
    from dec m Inr
    have rest: "fetch_and_extract env source destination remove_source ?w1 = (Inl e, w')"
      by (simp add: io_bind_def logged_def)
    have "dirs_kept ?w1 w'"
      using keeps_dirs_fetch_and_extract rest unfolding keeps_dirs_def by blast
    moreover have "is_dir ?w1 ?ip" using d by simp
    ultimately have d': "is_dir w' ?ip" by (rule is_dir_mono)
    from fetch_and_extract_get_failed [OF rest] download_data_found [OF d'] d'
    show ?thesis by blast
  qed
qed

theorem download_data_no_rollback_witness:
  "download_data example_env missing_url ''pizza_steak_sushi'' True empty_world =
     (Inl (RequestException ''connection''), failed_world) \<and>
   fst (last (log failed_world)) = Requests_get missing_url \<and>
   is_dir failed_world (image_path ''pizza_steak_sushi'') \<and>
   download_data example_env example_url ''pizza_steak_sushi'' True failed_world =
     (Inr (image_path ''pizza_steak_sushi''),
      failed_world\<lparr>log := log failed_world @
         [(Path_is_dir (image_path ''pizza_steak_sushi''), Answered True),
          (Print (''[INFO] '' @ str_path (image_path ''pizza_steak_sushi'')
                    @ '' directory exists, skipping download.''), Returned)]\<rparr>) \<and>
   resolve failed_world (archive_path missing_url) = Inr [''home'', ''data'', ''missing.zip''] \<and>
   node_at (files failed_world) [''home'', ''data'', ''missing.zip''] = Some (File [])"
proof -
  have run: "download_data example_env missing_url ''pizza_steak_sushi'' True empty_world =
     (Inl (RequestException ''connection''), failed_world)"
    by code_simp
  have l: "fst (last (log failed_world)) = Requests_get missing_url"
    by code_simp
  have later: "fst (last (log failed_world)) \<noteq> Path_mkdir (image_path ''pizza_steak_sushi'')"
    by (simp add: l)
  have r: "resolve failed_world (archive_path missing_url) = Inr [''home'', ''data'', ''missing.zip'']"
    by code_simp
  have n: "node_at (files failed_world) [''home'', ''data'', ''missing.zip''] = Some (File [])"
    by code_simp
  from download_data_no_rollback [OF run later, of example_env example_url True] run l r n
  show ?thesis by simp
qed


section \<open>\<open>create_dataloaders\<close>: the class names\<close>

text \<open>
  Claim C4. When \<open>create_dataloaders\<close> returns, the list of class names is sorted and
  without repetition, its elements are exactly the names of the immediate subdirectories
  of \<open>train_dir\<close>, and its length is their number; it is the class list of the training
  data. The classes of the testing data are the subdirectories of \<open>test_dir\<close>, and nothing
  compares them with the list: any other call that returns, with the same \<open>train_dir\<close>
  holding the same subdirectories, gives the same list, whatever its \<open>test_dir\<close>, its
  file system elsewhere and its other arguments.
\<close>

theorem class_names_from_train_dir:
  assumes "create_dataloaders module w train_dir test_dir train_transform test_transform
             bs nw = Inr (tr, te, class_names)"
  shows "\<exists>c c'. resolve w (Path train_dir) = Inr c \<and>
           sorted class_names \<and> distinct class_names \<and>
           set class_names = {n. node_at (files w) (c @ [n]) = Some Dir} \<and>
           length class_names = card {n. node_at (files w) (c @ [n]) = Some Dir} \<and>
           classes (dataset tr) = class_names \<and>
           resolve w (Path test_dir) = Inr c' \<and>
           set (classes (dataset te)) = {n. node_at (files w) (c' @ [n]) = Some Dir} \<and>
           (\<forall>module2 w2 test_dir2 train_transform2 test_transform2 bs2 nw2 tr2 te2 class_names2.
              create_dataloaders module2 w2 train_dir test_dir2
                 (train_transform2 :: 'a) test_transform2 bs2 nw2 = Inr (tr2, te2, class_names2) \<and>
              resolve w2 (Path train_dir) = Inr c \<and>
              {n. node_at (files w2) (c @ [n]) = Some Dir}
                 = {n. node_at (files w) (c @ [n]) = Some Dir}
              \<longrightarrow> class_names2 = class_names)"
proof -
  from create_dataloaders_Inr [OF assms] obtain train_data test_data where
    i1: "ImageFolder w train_dir train_transform = Inr train_data" and
    i2: "ImageFolder w test_dir test_transform = Inr test_data" and
    d1: "DataLoader train_data bs True
             (case nw of Omitted \<Rightarrow> NUM_WORKERS module | Given n \<Rightarrow> n) True = Inr tr" and
    d2: "DataLoader test_data bs False
             (case nw of Omitted \<Rightarrow> NUM_WORKERS module | Given n \<Rightarrow> n) True = Inr te" and
    cn: "class_names = classes train_data"
    by blast
  from ImageFolder_Inr [OF i1] cn have "find_classes w train_dir = Inr class_names" by simp
  from find_classes_Inr [OF this] obtain c where
    c: "resolve w (Path train_dir) = Inr c" and s: "sorted class_names" and
    d: "distinct class_names" and
    st: "set class_names = {n. node_at (files w) (c @ [n]) = Some Dir}"
    by blast
  from ImageFolder_Inr [OF i2] have "find_classes w test_dir = Inr (classes test_data)" by simp
  from find_classes_Inr [OF this] obtain c' where
    c': "resolve w (Path test_dir) = Inr c'" and
    st': "set (classes test_data) = {n. node_at (files w) (c' @ [n]) = Some Dir}"
    by blast
  have len: "length class_names = card {n. node_at (files w) (c @ [n]) = Some Dir}"
    using d st distinct_card [of class_names] by simp
  have ctr: "classes (dataset tr) = class_names" using DataLoader_Inr [OF d1] cn by simp
  have cte: "set (classes (dataset te)) = {n. node_at (files w) (c' @ [n]) = Some Dir}"
    using DataLoader_Inr [OF d2] st' by simp
  have indep: "\<forall>module2 w2 test_dir2 train_transform2 test_transform2 bs2 nw2 tr2 te2 class_names2.
              create_dataloaders module2 w2 train_dir test_dir2
                 (train_transform2 :: 'a) test_transform2 bs2 nw2 = Inr (tr2, te2, class_names2) \<and>
              resolve w2 (Path train_dir) = Inr c \<and>
              {n. node_at (files w2) (c @ [n]) = Some Dir}
                 = {n. node_at (files w) (c @ [n]) = Some Dir}
              \<longrightarrow> class_names2 = class_names"
  proof (intro allI impI, elim conjE)
    fix module2 w2 test_dir2 and train_transform2 test_transform2 :: 'a
      and bs2 nw2 tr2 te2 class_names2
    assume r2: "create_dataloaders module2 w2 train_dir test_dir2
                 train_transform2 test_transform2 bs2 nw2 = Inr (tr2, te2, class_names2)"
      and c2: "resolve w2 (Path train_dir) = Inr c"
      and same: "{n. node_at (files w2) (c @ [n]) = Some Dir}
                 = {n. node_at (files w) (c @ [n]) = Some Dir}"
    from create_dataloaders_Inr [OF r2] obtain train_data2 where
      "ImageFolder w2 train_dir train_transform2 = Inr train_data2"
      "class_names2 = classes train_data2" by blast
    with ImageFolder_Inr have "find_classes w2 train_dir = Inr class_names2" by fastforce
    from find_classes_Inr [OF this] c2
    have "sorted class_names2" "distinct class_names2"
      "set class_names2 = {n. node_at (files w2) (c @ [n]) = Some Dir}" by auto
    with same st s d show "class_names2 = class_names"
      by (auto intro: sorted_distinct_set_unique)
  qed
  show ?thesis
    apply (rule exI [of _ c])
    apply (rule exI [of _ c'])
    apply (intro conjI)
    apply (rule c s d st len ctr c' cte indep)+
    done
qed

theorem class_names_from_train_dir_witness:
  "create_dataloaders (import_data_setup example_host) fresh_world
      example_train_dir example_test_dir 0 1 32 Omitted
     = Inr (example_train_loader, example_test_loader, [''pizza'', ''steak'']) \<and>
   classes (dataset example_train_loader) = [''pizza'', ''steak''] \<and>
   classes (dataset example_test_loader) = [''sushi''] \<and>
   resolve fresh_world (Path example_train_dir)
     = Inr [''home'', ''data'', ''pizza_steak_sushi'', ''train'']"
proof -
  have run: "create_dataloaders (import_data_setup example_host) fresh_world
      example_train_dir example_test_dir 0 1 32 Omitted
     = Inr (example_train_loader, example_test_loader, [''pizza'', ''steak''])"
    by code_simp
  from class_names_from_train_dir [OF run]
  have tr: "classes (dataset example_train_loader) = [''pizza'', ''steak'']" by blast
  have te: "classes (dataset example_test_loader) = [''sushi'']" by code_simp
  have r: "resolve fresh_world (Path example_train_dir)
     = Inr [''home'', ''data'', ''pizza_steak_sushi'', ''train'']" by code_simp
  from run tr te r show ?thesis by blast
qed


section \<open>\<open>create_dataloaders\<close>: shuffling\<close>

text \<open>
  Claim C5. When \<open>create_dataloaders\<close> returns, the training loader shuffles and the
  testing loader does not. A traversal of the testing loader yields the samples of its
  data set in the order of the data set, in batches, and leaves the generator alone, so
  that any two traversals yield the same, whatever the generator. A traversal of the
  training loader yields the samples in the permutation that it draws from the generator
  when it starts.
\<close>

theorem loaders_shuffle_train_only:
  assumes "create_dataloaders module w train_dir test_dir train_transform test_transform
             bs nw = Inr (tr, te, class_names)"
  shows "shuffle tr \<and> \<not> shuffle te \<and>
         traverse randperm te g = (chunks (nat (batch_size te)) (samples (dataset te)), g) \<and>
         fst (traverse randperm te g) = fst (traverse randperm' te g') \<and>
         traverse randperm tr g =
           (chunks (nat (batch_size tr))
              (map (\<lambda>i. samples (dataset tr) ! i)
                 (filter (\<lambda>i. i < length (samples (dataset tr)))
                    (fst (randperm g (length (samples (dataset tr))))))),
            snd (randperm g (length (samples (dataset tr)))))"
proof -
  from create_dataloaders_Inr [OF assms] obtain train_data test_data where
    d1: "DataLoader train_data bs True
             (case nw of Omitted \<Rightarrow> NUM_WORKERS module | Given n \<Rightarrow> n) True = Inr tr" and
    d2: "DataLoader test_data bs False
             (case nw of Omitted \<Rightarrow> NUM_WORKERS module | Given n \<Rightarrow> n) True = Inr te"
    by blast
  have s1: "shuffle tr" using DataLoader_Inr [OF d1] by simp
  have s2: "\<not> shuffle te" using DataLoader_Inr [OF d2] by simp
  have t2: "traverse rp te h = (chunks (nat (batch_size te)) (samples (dataset te)), h)"
    for rp :: "'g \<Rightarrow> nat \<Rightarrow> nat list \<times> 'g" and h
    using s2 by (simp add: traverse_def sampler_order_def map_nth del: chunks.simps)
  have t1: "traverse randperm tr g =
           (chunks (nat (batch_size tr))
              (map (\<lambda>i. samples (dataset tr) ! i)
                 (filter (\<lambda>i. i < length (samples (dataset tr)))
                    (fst (randperm g (length (samples (dataset tr))))))),
            snd (randperm g (length (samples (dataset tr)))))"
    using s1 by (simp add: traverse_def sampler_order_def split: prod.splits del: chunks.simps)
  from s1 s2 t2 [of randperm g] t2 [of randperm' g'] t1 show ?thesis by simp
qed

theorem loaders_shuffle_train_only_witness:
  "create_dataloaders (import_data_setup example_host) fresh_world
      example_train_dir example_test_dir 0 1 32 Omitted
     = Inr (example_train_loader, example_test_loader, [''pizza'', ''steak'']) \<and>
   shuffle example_train_loader \<and> \<not> shuffle example_test_loader \<and>
   traverse example_randperm example_test_loader 0 =
     ([[([''home'', ''data'', ''pizza_steak_sushi'', ''test'', ''sushi'', ''3.jpg''], 0)]], 0) \<and>
   traverse example_randperm example_train_loader 0 =
     ([[([''home'', ''data'', ''pizza_steak_sushi'', ''train'', ''steak'', ''2.jpg''], 1),
        ([''home'', ''data'', ''pizza_steak_sushi'', ''train'', ''pizza'', ''1.jpg''], 0)]], 1)"
proof -
  have run: "create_dataloaders (import_data_setup example_host) fresh_world
      example_train_dir example_test_dir 0 1 32 Omitted
     = Inr (example_train_loader, example_test_loader, [''pizza'', ''steak''])"
    by code_simp
  from loaders_shuffle_train_only [OF run, of example_randperm 0 example_randperm 0]
  have s: "shuffle example_train_loader" "\<not> shuffle example_test_loader" by blast+
  have t2: "traverse example_randperm example_test_loader 0 =
     ([[([''home'', ''data'', ''pizza_steak_sushi'', ''test'', ''sushi'', ''3.jpg''], 0)]], 0)"
    by code_simp
  have t1: "traverse example_randperm example_train_loader 0 =
     ([[([''home'', ''data'', ''pizza_steak_sushi'', ''train'', ''steak'', ''2.jpg''], 1),
        ([''home'', ''data'', ''pizza_steak_sushi'', ''train'', ''pizza'', ''1.jpg''], 0)]], 1)"
    by code_simp
  from run s t2 t1 show ?thesis by blast
qed


section \<open>\<open>create_dataloaders\<close>: memory pinning and workers\<close>

text \<open>
  Claim C6. When \<open>create_dataloaders\<close> returns, both loaders pin memory and both have the
  same worker count: the one that the caller gave, or, when the caller gave none, the
  value \<open>NUM_WORKERS\<close> of the module, which is what \<open>os.cpu_count()\<close> returned on the host
  where the module was imported.
\<close>

theorem loaders_pin_memory_and_workers:
  assumes "create_dataloaders (import_data_setup h) w train_dir test_dir
             train_transform test_transform bs nw = Inr (tr, te, class_names)"
  shows "pin_memory tr \<and> pin_memory te \<and> num_workers te = num_workers tr \<and>
         (case nw of
            Given n \<Rightarrow> n = Some (num_workers tr)
          | Omitted \<Rightarrow> cpu_count h = Some (num_workers tr) \<and>
                       NUM_WORKERS (import_data_setup h) = cpu_count h)"
proof -
  from create_dataloaders_Inr [OF assms] obtain train_data test_data where
    d1: "DataLoader train_data bs True
             (case nw of Omitted \<Rightarrow> NUM_WORKERS (import_data_setup h) | Given n \<Rightarrow> n) True
           = Inr tr" and
    d2: "DataLoader test_data bs False
             (case nw of Omitted \<Rightarrow> NUM_WORKERS (import_data_setup h) | Given n \<Rightarrow> n) True
           = Inr te"
    by blast
  from DataLoader_Inr [OF d1] DataLoader_Inr [OF d2] show ?thesis
    by (cases nw) (auto simp: import_data_setup_def)
qed

theorem loaders_pin_memory_and_workers_witness:
  "create_dataloaders (import_data_setup example_host) fresh_world
      example_train_dir example_test_dir 0 1 32 Omitted
     = Inr (example_train_loader, example_test_loader, [''pizza'', ''steak'']) \<and>
   pin_memory example_train_loader \<and> pin_memory example_test_loader \<and>
   cpu_count example_host = Some (num_workers example_train_loader) \<and>
   num_workers example_test_loader = 4 \<and>
   create_dataloaders (import_data_setup example_host) fresh_world
      example_train_dir example_test_dir 0 1 32 (Given (Some 2))
     = Inr (example_train_loader\<lparr>num_workers := 2\<rparr>,
            example_test_loader\<lparr>num_workers := 2\<rparr>, [''pizza'', ''steak''])"
proof -
  have run: "create_dataloaders (import_data_setup example_host) fresh_world
      example_train_dir example_test_dir 0 1 32 Omitted
     = Inr (example_train_loader, example_test_loader, [''pizza'', ''steak''])"
    by code_simp
  from loaders_pin_memory_and_workers [OF run]
  have p: "pin_memory example_train_loader" "pin_memory example_test_loader"
    and c: "cpu_count example_host = Some (num_workers example_train_loader)"
    by simp_all
  have n: "num_workers example_test_loader = 4" by code_simp
  have run2: "create_dataloaders (import_data_setup example_host) fresh_world
      example_train_dir example_test_dir 0 1 32 (Given (Some 2))
     = Inr (example_train_loader\<lparr>num_workers := 2\<rparr>,
            example_test_loader\<lparr>num_workers := 2\<rparr>, [''pizza'', ''steak''])"
    by code_simp
  from run p c n run2 show ?thesis by blast
qed


section \<open>\<open>create_model_baseline_vit\<close>: frozen backbone, new head\<close>

text \<open>
  Claim C7. When \<open>create_model_baseline_vit\<close> returns a model, no parameter of the model
  outside the head tracks gradients, and the head is a single linear layer from 768
  inputs to \<open>out_feats\<close> outputs whose weight and bias are new (drawn by the
  initialisation of the layer, tracking gradients) and are on the requested device, or
  on the default device when none is requested. The witness is the call with
  \<open>out_feats = 3\<close>.
\<close>

theorem baseline_vit_frozen_with_new_head:
  assumes "create_model_baseline_vit tenv out_feats dev st = (Inr m, st')"
  shows "(\<forall>p \<in> set (map snd (backbone m)). \<not> requires_grad p) \<and>
         (\<exists>w b. heads m = Linear 768 out_feats w b \<and>
                parameters m = map snd (backbone m) @ [w, b] \<and>
                requires_grad w \<and> requires_grad b \<and>
                p_device w = target_device tenv dev \<and>
                p_device b = target_device tenv dev \<and>
                (p_data w, p_data b) = fst (init_linear tenv (seeded tenv) 768 out_feats)) \<and>
         in_features (heads m) = 768 \<and> out_features (heads m) = out_feats \<and> 0 \<le> out_feats"
proof -
  from create_model_Inr [OF assms] obtain v g1 w b where
    pr: "pretrained tenv (rng st) = (Inr v, g1)" and
    n: "0 \<le> out_feats" and
    i: "init_linear tenv (seeded tenv) 768 out_feats = ((w, b), rng st')" and
    bb: "backbone m = map (\<lambda>(n, p). (n, set_requires_grad False p))
             (case dev of None \<Rightarrow> backbone v
                        | Some d \<Rightarrow> map (\<lambda>(n, p). (n, set_device d p)) (backbone v))" and
    h: "heads m = Linear 768 out_feats
                       (Parameter w True (target_device tenv dev))
                       (Parameter b True (target_device tenv dev))"
    by blast
  have frozen: "\<forall>p \<in> set (map snd (backbone m)). \<not> requires_grad p"
    using bb by (auto simp: set_requires_grad_def)
  have head: "\<exists>w b. heads m = Linear 768 out_feats w b \<and>
                parameters m = map snd (backbone m) @ [w, b] \<and>
                requires_grad w \<and> requires_grad b \<and>
                p_device w = target_device tenv dev \<and>
                p_device b = target_device tenv dev \<and>
                (p_data w, p_data b) = fst (init_linear tenv (seeded tenv) 768 out_feats)"
    using h i by (simp add: parameters_def)
  from frozen head h n show ?thesis by simp
qed

theorem baseline_vit_frozen_with_new_head_witness:
  "create_model_baseline_vit example_torch_env 3 (Some (CUDA 0)) \<lparr>rng = 0, tlog = []\<rparr>
     = (Inr example_model, \<lparr>rng = 44, tlog = example_calls\<rparr>) \<and>
   in_features (heads example_model) = 768 \<and>
   out_features (heads example_model) = 3 \<and>
   map (\<lambda>p. requires_grad (snd p)) (backbone example_model) = [False, False] \<and>
   map p_device (module_parameters (heads example_model)) = [CUDA 0, CUDA 0] \<and>
   map requires_grad (module_parameters (heads example_model)) = [True, True]"
proof -
  have run: "create_model_baseline_vit example_torch_env 3 (Some (CUDA 0))
               \<lparr>rng = 0, tlog = []\<rparr>
     = (Inr example_model, \<lparr>rng = 44, tlog = example_calls\<rparr>)"
    by code_simp
  from baseline_vit_frozen_with_new_head [OF run]
  have io: "in_features (heads example_model) = 768" "out_features (heads example_model) = 3"
    by simp_all
  have b: "map (\<lambda>p. requires_grad (snd p)) (backbone example_model) = [False, False]"
    by code_simp
  have d: "map p_device (module_parameters (heads example_model)) = [CUDA 0, CUDA 0]"
    by code_simp
  have g: "map requires_grad (module_parameters (heads example_model)) = [True, True]"
    by code_simp
  from run io b d g show ?thesis by blast
qed


section \<open>\<open>create_model_baseline_vit\<close>: the seed\<close>

text \<open>
  Claim C8. In a call that returns, \<open>set_seeds\<close> is the call just before the
  construction of the linear layer, and the head of the model is the same for any two
  calls with the same \<open>out_feats\<close> and device in the same environment, whatever the state
  of the generator before each call. \<open>set_seeds\<close> is modelled from the spec.
\<close>

theorem head_initialisation_reproducible:
  assumes r1: "create_model_baseline_vit tenv out_feats dev st1 = (Inr m1, st1')"
      and r2: "create_model_baseline_vit tenv out_feats dev st2 = (Inr m2, st2')"
  shows "heads m1 = heads m2 \<and>
         tlog st1' = tlog st1 @
             [(Vit_b_16, Returned), (To dev, Returned), (Set_seeds, Returned),
              (Linear_ctor 768 out_feats, Returned), (To dev, Returned)]"
proof -
  from create_model_Inr [OF r1] obtain v1 g1 w1 b1 where
    "pretrained tenv (rng st1) = (Inr v1, g1)" and
    i1: "init_linear tenv (seeded tenv) 768 out_feats = ((w1, b1), rng st1')" and
    h1: "heads m1 = Linear 768 out_feats
                       (Parameter w1 True (target_device tenv dev))
                       (Parameter b1 True (target_device tenv dev))" and
    l1: "tlog st1' = tlog st1 @
             [(Vit_b_16, Returned), (To dev, Returned), (Set_seeds, Returned),
              (Linear_ctor 768 out_feats, Returned), (To dev, Returned)]"
    by blast
  from create_model_Inr [OF r2] obtain v2 g2 w2 b2 where
    "pretrained tenv (rng st2) = (Inr v2, g2)" and
    i2: "init_linear tenv (seeded tenv) 768 out_feats = ((w2, b2), rng st2')" and
    h2: "heads m2 = Linear 768 out_feats
                       (Parameter w2 True (target_device tenv dev))
                       (Parameter b2 True (target_device tenv dev))"
    by blast
  from i1 i2 have "w1 = w2" "b1 = b2" by simp_all
  with h1 h2 l1 show ?thesis by simp
qed

theorem head_initialisation_reproducible_witness:
  "create_model_baseline_vit example_torch_env 3 (Some (CUDA 0)) \<lparr>rng = 0, tlog = []\<rparr>
     = (Inr example_model, \<lparr>rng = 44, tlog = example_calls\<rparr>) \<and>
   create_model_baseline_vit example_torch_env 3 (Some (CUDA 0))
       \<lparr>rng = 7, tlog = example_calls\<rparr>
     = (Inr example_model, \<lparr>rng = 44, tlog = example_calls @ example_calls\<rparr>) \<and>
   heads example_model = heads example_model \<and>
   heads example_model
     = Linear 768 3 (Parameter [42, 768, 3] True (CUDA 0)) (Parameter [42] True (CUDA 0))"
proof -
  have r1: "create_model_baseline_vit example_torch_env 3 (Some (CUDA 0))
               \<lparr>rng = 0, tlog = []\<rparr>
     = (Inr example_model, \<lparr>rng = 44, tlog = example_calls\<rparr>)"
    by code_simp
  have r2: "create_model_baseline_vit example_torch_env 3 (Some (CUDA 0))
       \<lparr>rng = 7, tlog = example_calls\<rparr>
     = (Inr example_model, \<lparr>rng = 44, tlog = example_calls @ example_calls\<rparr>)"
    by code_simp
  from head_initialisation_reproducible [OF r1 r2]
  have e: "heads example_model = heads example_model" by (rule conjunct1)
  have h: "heads example_model
     = Linear 768 3 (Parameter [42, 768, 3] True (CUDA 0)) (Parameter [42] True (CUDA 0))"
    by code_simp
  from r1 r2 e h show ?thesis by blast
qed


section \<open>No function catches or validates\<close>

text \<open>
  Claim C9. Each of the three functions makes its library calls one after the other and
  stops at the first that raises, and then the exception is its result as it is. For
  \<open>download_data\<close> and \<open>create_model_baseline_vit\<close>: among the entries that a run adds to
  the log only the last can be a raised exception; if there is one, it is the result of
  the run, and a run that ends with an exception ends with the exception of its last
  call. For \<open>create_dataloaders\<close>: the call ends with an exception exactly when one of
  \<open>ImageFolder\<close> (training, then testing) and \<open>DataLoader\<close> (training, then testing) does,
  after the calls before it have returned, and with that exception. Nor is an argument
  checked first: once the pretrained model is built, \<open>.to(device)\<close> is called with any
  device, and once that has returned, \<open>nn.Linear(768, out_feats)\<close> is called with any
  \<open>out_feats\<close>, also zero or negative.
\<close>

theorem errors_propagate_unchanged:
  assumes d: "download_data env source destination remove_source w = (r1, w')"
      and m: "create_model_baseline_vit tenv out_feats dev st = (r3, st')"
  shows "(\<exists>es. log w' = log w @ es \<and>
            (\<forall>c e. (c, Raised e) \<in> set es \<longrightarrow> r1 = Inl e \<and> last es = (c, Raised e)) \<and>
            (\<forall>e. r1 = Inl e \<longrightarrow> es \<noteq> [] \<and> snd (last es) = Raised e)) \<and>
         (\<forall>e. create_dataloaders module wd train_dir test_dir train_transform test_transform
                 bs nw = Inl e
            \<longleftrightarrow>
            (ImageFolder wd train_dir train_transform = Inl e \<or>
             (\<exists>a. ImageFolder wd train_dir train_transform = Inr a \<and>
                (ImageFolder wd test_dir test_transform = Inl e \<or>
                 (\<exists>b. ImageFolder wd test_dir test_transform = Inr b \<and>
                    (DataLoader a bs True
                       (case nw of Omitted \<Rightarrow> NUM_WORKERS module | Given n \<Rightarrow> n) True = Inl e \<or>
                     (\<exists>tl. DataLoader a bs True
                          (case nw of Omitted \<Rightarrow> NUM_WORKERS module | Given n \<Rightarrow> n) True
                            = Inr tl \<and>
                        DataLoader b bs False
                          (case nw of Omitted \<Rightarrow> NUM_WORKERS module | Given n \<Rightarrow> n) True
                            = Inl e))))))) \<and>
         (\<exists>es. tlog st' = tlog st @ es \<and>
            (\<forall>c e. (c, Raised e) \<in> set es \<longrightarrow> r3 = Inl e \<and> last es = (c, Raised e)) \<and>
            (\<forall>e. r3 = Inl e \<longrightarrow> es \<noteq> [] \<and> snd (last es) = Raised e) \<and>
            (\<forall>v g. pretrained tenv (rng st) = (Inr v, g) \<longrightarrow> (\<exists>x. (To dev, x) \<in> set es)) \<and>
            (\<forall>v g. pretrained tenv (rng st) = (Inr v, g) \<and>
                   (\<forall>dv. dev = Some dv \<longrightarrow> to_fault tenv dv = None) \<longrightarrow>
                   (\<exists>x. (Linear_ctor 768 out_feats, x) \<in> set es)))"
proof -
  have A: "\<exists>es. log w' = log w @ es \<and>
            (\<forall>c e. (c, Raised e) \<in> set es \<longrightarrow> r1 = Inl e \<and> last es = (c, Raised e)) \<and>
            (\<forall>e. r1 = Inl e \<longrightarrow> es \<noteq> [] \<and> snd (last es) = Raised e)"
    using propagates_download_data d by (rule propagatesD)
  have B: "\<forall>e. create_dataloaders module wd train_dir test_dir train_transform test_transform
                 bs nw = Inl e
            \<longleftrightarrow>
            (ImageFolder wd train_dir train_transform = Inl e \<or>
             (\<exists>a. ImageFolder wd train_dir train_transform = Inr a \<and>
                (ImageFolder wd test_dir test_transform = Inl e \<or>
                 (\<exists>b. ImageFolder wd test_dir test_transform = Inr b \<and>
                    (DataLoader a bs True
                       (case nw of Omitted \<Rightarrow> NUM_WORKERS module | Given n \<Rightarrow> n) True = Inl e \<or>
                     (\<exists>tl. DataLoader a bs True
                          (case nw of Omitted \<Rightarrow> NUM_WORKERS module | Given n \<Rightarrow> n) True
                            = Inr tl \<and>
                        DataLoader b bs False
                          (case nw of Omitted \<Rightarrow> NUM_WORKERS module | Given n \<Rightarrow> n) True
                            = Inl e))))))"
    by (intro allI) (rule create_dataloaders_Inl)
  from propagatesD [OF propagates_create_model m] obtain es where
    l: "tlog st' = tlog st @ es" and
    r: "\<forall>c e. (c, Raised e) \<in> set es \<longrightarrow> r3 = Inl e \<and> last es = (c, Raised e)" and
    e: "\<forall>e. r3 = Inl e \<longrightarrow> es \<noteq> [] \<and> snd (last es) = Raised e"
    by blast
  from create_model_calls [OF m] obtain es' where
    l': "tlog st' = tlog st @ es'" and
    t: "\<forall>v g. pretrained tenv (rng st) = (Inr v, g) \<longrightarrow> (\<exists>x. (To dev, x) \<in> set es')" and
    n: "\<forall>v g. pretrained tenv (rng st) = (Inr v, g) \<and>
                   (\<forall>dv. dev = Some dv \<longrightarrow> to_fault tenv dv = None) \<longrightarrow>
                   (\<exists>x. (Linear_ctor 768 out_feats, x) \<in> set es')"
    by blast
  from l l' have eq: "es' = es" by simp
  have C: "\<exists>es. tlog st' = tlog st @ es \<and>
            (\<forall>c e. (c, Raised e) \<in> set es \<longrightarrow> r3 = Inl e \<and> last es = (c, Raised e)) \<and>
            (\<forall>e. r3 = Inl e \<longrightarrow> es \<noteq> [] \<and> snd (last es) = Raised e) \<and>
            (\<forall>v g. pretrained tenv (rng st) = (Inr v, g) \<longrightarrow> (\<exists>x. (To dev, x) \<in> set es)) \<and>
            (\<forall>v g. pretrained tenv (rng st) = (Inr v, g) \<and>
                   (\<forall>dv. dev = Some dv \<longrightarrow> to_fault tenv dv = None) \<longrightarrow>
                   (\<exists>x. (Linear_ctor 768 out_feats, x) \<in> set es))"
    apply (rule exI [of _ es])
    apply (intro conjI)
    apply (rule l r e t [unfolded eq] n [unfolded eq])+
    done
  show ?thesis by (rule conjI [OF A conjI [OF B C]])
qed

theorem errors_propagate_unchanged_witness:
  "download_data example_env missing_url ''pizza_steak_sushi'' True empty_world =
     (Inl (RequestException ''connection''), failed_world) \<and>
   last (log failed_world) = (Requests_get missing_url, Raised (RequestException ''connection'')) \<and>
   ImageFolder fresh_world ''data/pizza_steak_sushi/nothing'' (1::nat) = Inl FileNotFoundError \<and>
   create_dataloaders (import_data_setup example_host) fresh_world
      example_train_dir ''data/pizza_steak_sushi/nothing'' (0::nat) 1 32 Omitted
     = Inl FileNotFoundError \<and>
   create_model_baseline_vit example_torch_env (- 1) None \<lparr>rng = 7, tlog = []\<rparr>
     = (Inl (RuntimeError ''negative dimension''), \<lparr>rng = 42, tlog = negative_calls\<rparr>) \<and>
   snd (last negative_calls) = Raised (RuntimeError ''negative dimension'')"
proof -
  have d: "download_data example_env missing_url ''pizza_steak_sushi'' True empty_world =
     (Inl (RequestException ''connection''), failed_world)"
    by code_simp
  have m: "create_model_baseline_vit example_torch_env (- 1) None \<lparr>rng = 7, tlog = []\<rparr>
     = (Inl (RuntimeError ''negative dimension''), \<lparr>rng = 42, tlog = negative_calls\<rparr>)"
    by code_simp
  have i: "ImageFolder fresh_world ''data/pizza_steak_sushi/nothing'' (1::nat)
             = Inl FileNotFoundError"
    by code_simp
  have c: "create_dataloaders (import_data_setup example_host) fresh_world
      example_train_dir ''data/pizza_steak_sushi/nothing'' (0::nat) 1 32 Omitted
     = Inl FileNotFoundError"
    by code_simp
  have la: "last (log failed_world)
              = (Requests_get missing_url, Raised (RequestException ''connection''))"
    by code_simp
  note th = errors_propagate_unchanged [OF d m,
      where module = "import_data_setup example_host" and wd = fresh_world
        and train_dir = example_train_dir and test_dir = "''data/pizza_steak_sushi/nothing''"
        and train_transform = "0::nat" and test_transform = 1 and bs = 32 and nw = Omitted]
  from th [THEN conjunct2, THEN conjunct2]
  obtain es where
    e1: "tlog \<lparr>rng = 42::nat, tlog = negative_calls\<rparr> = tlog \<lparr>rng = 7::nat, tlog = []\<rparr> @ es"
    and e2: "\<forall>e. (Inl (RuntimeError ''negative dimension'') :: error + nat list vit) = Inl e
         \<longrightarrow> es \<noteq> [] \<and> snd (last es) = Raised e"
    by (elim exE conjE)
  from e1 have "es = negative_calls" by simp
  with e2 have n: "snd (last negative_calls) = Raised (RuntimeError ''negative dimension'')"
    by simp
  show ?thesis by (intro conjI) (rule d la i c m n)+
qed


section \<open>\<open>download_data\<close>: keeping the archive\<close>

text \<open>
  Claim C10. When \<open>Path("data/") / destination\<close> is not a directory and the call with
  \<open>remove_source=False\<close> returns, the archive file is a regular file afterwards and the
  run has made no call of \<open>os.remove\<close>. The call with \<open>remove_source=True\<close> from the same
  world is that run followed by the removal of the archive file: when it returns, it
  returns the same path, and its world differs from the one of the other call by the
  removed archive file and the log entry of the removal only.
\<close>

theorem download_data_keep_source:
  assumes nf: "\<not> is_dir w (image_path destination)"
      and run: "download_data env source destination False w = (Inr p, w')"
  shows "(\<exists>f b. resolve w' (archive_path source) = Inr f \<and>
                 node_at (files w') f = Some (File b)) \<and>
         (\<forall>x. (Os_remove (archive_path source), x) \<notin> set (drop (length (log w)) (log w'))) \<and>
         download_data env source destination True w =
           io_bind (logged (Os_remove (archive_path source))
                      (os_remove env (archive_path source)))
             (\<lambda>_. io_return (image_path destination)) w' \<and>
         (\<forall>p2 w2. download_data env source destination True w = (Inr p2, w2) \<longrightarrow>
            p2 = p \<and> cwd w2 = cwd w' \<and>
            log w2 = log w' @ [(Os_remove (archive_path source), Returned)] \<and>
            (\<exists>f. resolve w' (archive_path source) = Inr f \<and>
                 files w2 = delete_node f (files w')))"
proof -
  let ?ip = "image_path destination" and ?ap = "archive_path source"
  from download_data_mkdir_done [OF nf run] obtain wm where
    dm: "is_dir wm ?ip" and
    lm: "log wm = log w @
             [(Path_is_dir ?ip, Answered False),
              (Print (''[INFO] Did not find '' @ str_path ?ip
                        @ '' directory, creating one...''), Returned),
              (Path_mkdir ?ip, Returned)]" and
    rest: "fetch_and_extract env source destination False wm = (Inr p, w')" and
    same: "\<forall>r2. download_data env source destination r2 w =
                  fetch_and_extract env source destination r2 wm"
    by blast
  from dm obtain base where bm: "resolve wm ?ip = Inr base"
    by (auto simp: is_dir_def split: sum.splits)
  from fetch_and_extract_kept [OF rest bm, simplified] obtain f es where
    p: "p = ?ip" and
    rf: "resolve w' ?ap = Inr f" and
    fe: "\<exists>b. node_at (files w') f = Some (File b)" and
    l: "log w' = log wm @ es" and
    es: "\<forall>x. (Os_remove ?ap, x) \<notin> set es"
    by blast
  have A: "\<exists>f b. resolve w' ?ap = Inr f \<and> node_at (files w') f = Some (File b)"
    using rf fe by blast
  have B: "\<forall>x. (Os_remove ?ap, x) \<notin> set (drop (length (log w)) (log w'))"
    using l lm es by simp
  have C: "download_data env source destination True w =
           io_bind (logged (Os_remove ?ap) (os_remove env ?ap)) (\<lambda>_. io_return ?ip) w'"
  proof -
    have "download_data env source destination True w =
            fetch_and_extract env source destination True wm"
      using same by blast
    also have "\<dots> = io_bind (fetch_and_extract env source destination False)
       (\<lambda>_. io_bind (logged (Os_remove ?ap) (os_remove env ?ap))
               (\<lambda>_. io_return ?ip)) wm"
      by (rule fetch_and_extract_remove)
    also have "\<dots> = io_bind (logged (Os_remove ?ap) (os_remove env ?ap))
               (\<lambda>_. io_return ?ip) w'"
      using rest by (simp add: io_bind_def)
    finally show ?thesis .
  qed
  have D: "\<forall>p2 w2. download_data env source destination True w = (Inr p2, w2) \<longrightarrow>
            p2 = p \<and> cwd w2 = cwd w' \<and>
            log w2 = log w' @ [(Os_remove ?ap, Returned)] \<and>
            (\<exists>f. resolve w' ?ap = Inr f \<and> files w2 = delete_node f (files w'))"
  proof (intro allI impI)
    fix p2 w2
    assume t: "download_data env source destination True w = (Inr p2, w2)"
    obtain r1 wr where rm: "os_remove env ?ap w' = (r1, wr)" by (cases "os_remove env ?ap w'")
    from t C rm obtain u where r1: "r1 = Inr u"
      by (cases r1) (auto simp: io_bind_def logged_def)
    from t C rm r1 have p2: "p2 = ?ip" and w2: "w2 = wr\<lparr>log := log wr @ [(Os_remove ?ap, Returned)]\<rparr>"
      by (auto simp: io_bind_def logged_def io_return_def)
    from rm r1 have rm': "os_remove env ?ap w' = (Inr (), wr)" by simp
    from os_remove_Inr [OF rm'] obtain c where
      c: "resolve w' ?ap = Inr c" "wr = w'\<lparr>files := delete_node c (files w')\<rparr>" by blast
    have "log wr = log w'" using os_remove_kept [OF rm'] by simp
    with p2 w2 c p
    show "p2 = p \<and> cwd w2 = cwd w' \<and>
            log w2 = log w' @ [(Os_remove ?ap, Returned)] \<and>
            (\<exists>f. resolve w' ?ap = Inr f \<and> files w2 = delete_node f (files w'))"
      by auto
  qed
  from A B C D show ?thesis by blast
qed

theorem download_data_keep_source_witness:
  "\<not> is_dir empty_world (image_path ''pizza_steak_sushi'') \<and>
   download_data example_env example_url ''pizza_steak_sushi'' False empty_world =
     (Inr (image_path ''pizza_steak_sushi''), kept_world) \<and>
   download_data example_env example_url ''pizza_steak_sushi'' True empty_world =
     (Inr (image_path ''pizza_steak_sushi''), fresh_world) \<and>
   resolve kept_world (archive_path example_url) =
     Inr [''home'', ''data'', ''pizza_steak_sushi.zip''] \<and>
   node_at (files kept_world) [''home'', ''data'', ''pizza_steak_sushi.zip'']
     = Some (File [80, 75]) \<and>
   files fresh_world = delete_node [''home'', ''data'', ''pizza_steak_sushi.zip'']
                         (files kept_world) \<and>
   log fresh_world = log kept_world @ [(Os_remove (archive_path example_url), Returned)]"
proof -
  have nf: "\<not> is_dir empty_world (image_path ''pizza_steak_sushi'')"
    by code_simp
  have run: "download_data example_env example_url ''pizza_steak_sushi'' False empty_world =
     (Inr (image_path ''pizza_steak_sushi''), kept_world)"
    by code_simp
  have runT: "download_data example_env example_url ''pizza_steak_sushi'' True empty_world =
     (Inr (image_path ''pizza_steak_sushi''), fresh_world)"
    by code_simp
  have r: "resolve kept_world (archive_path example_url) =
     Inr [''home'', ''data'', ''pizza_steak_sushi.zip'']"
    by code_simp
  have n: "node_at (files kept_world) [''home'', ''data'', ''pizza_steak_sushi.zip'']
     = Some (File [80, 75])"
    by code_simp
  from download_data_keep_source [OF nf run] runT
  have "log fresh_world = log kept_world @ [(Os_remove (archive_path example_url), Returned)]"
    and "\<exists>f. resolve kept_world (archive_path example_url) = Inr f \<and>
             files fresh_world = delete_node f (files kept_world)"
    by blast+
  with nf run runT r n show ?thesis by auto
qed


end
